theory Spec2Isabelle
  imports Main "HOL-Library.Word"
begin

section \<open>Data model\<close>

text \<open>
  The firmware is one C file, \<^verbatim>\<open>src/main.c\<close>.  Everything it does is a call into an external
  library (modem, LTE link control, key store, GPIO, console broker, SIPF client), so the
  model is a trace semantics: every function of the source becomes a HOL function that returns
  its C return value together with the list of external calls it made, in order.  The values
  the external calls return are read from an environment record.
\<close>

type_synonym byte = "8 word"

datatype gpio_dt_spec = led_boot | led_state | btn_send

datatype gpio_flags = GPIO_INPUT | GPIO_OUTPUT_INACTIVE

datatype log_level = LOG_ERR | LOG_INF | LOG_DBG

datatype cred_type = MODEM_KEY_MGMT_CRED_TYPE_CA_CHAIN

datatype nrf_modem_mode = NORMAL_MODE

datatype pdn_fam = PDN_FAM_IPV4

datatype k_sem = lte_connected | reset_request

text \<open>
  One constructor per external function the program calls, carrying the arguments of the call
  and, where the function returns a value or fills an output parameter, what came back.
  Format strings are kept as the source writes them, with the variadic arguments beside them.
  Arguments that are always a null pointer, and the two callbacks (\<open>lte_handler\<close> for
  \<open>lte_lc_connect_async\<close>, \<open>cb_fileDownload\<close> for \<open>SipfFileDownload\<close>), are left out.
\<close>

datatype event =
    UartBrokerInit
  | UartBrokerPrint string "int list"
  | UartBrokerPuts string
  | LOG log_level string "int list"
  | device_is_ready gpio_dt_spec bool
  | gpio_pin_configure_dt gpio_dt_spec gpio_flags
  | gpio_pin_set_dt gpio_dt_spec int
  | gpio_pin_toggle_dt gpio_dt_spec
  | gpio_pin_get_dt gpio_dt_spec int
  | nrf_modem_lib_init nrf_modem_mode int
  | modem_key_mgmt_exists nat cred_type int bool
  | modem_key_mgmt_delete nat cred_type int
  | modem_key_mgmt_write nat cred_type "byte list" nat int
  | pdn_ctx_create int byte
  | pdn_ctx_configure byte string pdn_fam int
  | lte_lc_init int
  | lte_lc_modem_events_enable
  | lte_lc_connect_async int
  | k_sem_take k_sem int int
  | lte_lc_offline
  | lte_lc_deinit
  | lte_lc_psm_req bool int
  | SipfAuthRequest nat nat int string string
  | SipfClientHttpSetAuthInfo string string int
  | SipfFileDownload string nat int
  | k_uptime_get int
  | k_sleep int

text \<open>
  The environment: what each external call answers.  Calls made inside a loop are indexed by
  the iteration that makes them.  \<open>cert\<close> is the byte array the build embeds from
  \<^verbatim>\<open>sipf/cert/sipf.iot.sakura.ad.jp\<close>; the three \<open>CONFIG\<close> fields are the build
  options \<open>main\<close> tests with \<^verbatim>\<open>#ifdef\<close>.
\<close>

record env =
  cert :: "byte list"
  CONFIG_LTE_LOCK_PLMN :: "string option"
  CONFIG_SIPF_AUTH_DISABLE_SSL :: bool
  CONFIG_SIPF_CONNECTOR_DISABLE_SSL :: bool
  device_is_ready_ret :: "gpio_dt_spec \<Rightarrow> bool"
  nrf_modem_lib_init_ret :: int
  modem_key_mgmt_exists_ret :: "int \<times> bool"
  modem_key_mgmt_delete_ret :: int
  modem_key_mgmt_write_ret :: int
  pdn_ctx_create_ret :: "int \<times> byte"
  pdn_ctx_configure_ret :: int
  lte_lc_init_ret :: "nat \<Rightarrow> int"
  lte_lc_connect_async_ret :: "nat \<Rightarrow> int"
  k_sem_take_ret :: "nat \<Rightarrow> int"
  lte_lc_psm_req_ret :: int
  SipfAuthRequest_ret :: "nat \<Rightarrow> int \<times> string \<times> string"
  SipfClientHttpSetAuthInfo_ret :: int
  k_uptime_get_ret :: "nat \<Rightarrow> int"
  gpio_pin_get_dt_ret :: "nat \<Rightarrow> int"
  SipfFileDownload_ret :: "nat \<Rightarrow> int"

subsection \<open>Constants of the source\<close>

definition CRLF :: string where
  "CRLF = [CHR 0x0D, CHR 0x0A]"

definition LED_HEARTBEAT_MS :: int where
  "LED_HEARTBEAT_MS = 500"

definition TLS_SEC_TAG :: nat where
  "TLS_SEC_TAG = 42"

definition SZ_USER_NAME :: nat where
  "SZ_USER_NAME = 255"

definition SZ_PASSWORD :: nat where
  "SZ_PASSWORD = 255"

definition REGISTER_TIMEOUT_MS :: int where
  "REGISTER_TIMEOUT_MS = 120000"

definition REGISTER_TRY :: nat where
  "REGISTER_TRY = 3"

definition sizeof_work_buff :: nat where
  "sizeof_work_buff = 1024"

text \<open>The two errno values the source names, with Zephyr's numbering.\<close>

definition EAGAIN :: int where
  "EAGAIN = 11"

definition ENODEV :: int where
  "ENODEV = 19"

definition INT_MAX :: int where
  "INT_MAX = 2 ^ 31 - 1"

text \<open>
  \<^verbatim>\<open>sizeof(cert) - 1\<close> is computed in \<^verbatim>\<open>size_t\<close>, 32 bits wide on this target, so the
  subtraction wraps instead of stopping at zero.
\<close>

definition sizeof_cert_minus_1 :: "env \<Rightarrow> nat" where
  "sizeof_cert_minus_1 w = (length (cert w) + 2 ^ 32 - 1) mod 2 ^ 32"

text \<open>Sequencing: the calls \<open>evs\<close> happen, then the computation \<open>r\<close> runs.\<close>

definition emit :: "event list \<Rightarrow> 'a \<times> event list \<Rightarrow> 'a \<times> event list" where
  "emit evs r = (fst r, evs @ snd r)"

section \<open>Peripherals\<close>

definition button_init :: "env \<Rightarrow> int \<times> event list" where
  "button_init w =
     (if \<not> device_is_ready_ret w btn_send then
        (- ENODEV, [device_is_ready btn_send False])
      else
        (0, [device_is_ready btn_send True, gpio_pin_configure_dt btn_send GPIO_INPUT]))"

definition led_init :: "env \<Rightarrow> int \<times> event list" where
  "led_init w =
     (if \<not> device_is_ready_ret w led_boot then
        (- ENODEV, [device_is_ready led_boot False])
      else if \<not> device_is_ready_ret w led_state then
        (- ENODEV,
         [device_is_ready led_boot True, gpio_pin_configure_dt led_boot GPIO_OUTPUT_INACTIVE,
          device_is_ready led_state False])
      else
        (0,
         [device_is_ready led_boot True, gpio_pin_configure_dt led_boot GPIO_OUTPUT_INACTIVE,
          device_is_ready led_state True, gpio_pin_configure_dt led_state GPIO_OUTPUT_INACTIVE]))"

section \<open>Modem bring-up\<close>

definition cert_provision :: "env \<Rightarrow> int \<times> event list" where
  "cert_provision w =
     (let err = fst (modem_key_mgmt_exists_ret w);
          exists = snd (modem_key_mgmt_exists_ret w);
          e1 = [modem_key_mgmt_exists TLS_SEC_TAG MODEM_KEY_MGMT_CRED_TYPE_CA_CHAIN err exists]
      in
      if err \<noteq> 0 then
        (err, e1 @ [LOG LOG_ERR ''Failed to check for certificates err %d'' [err]])
      else
        (let del = modem_key_mgmt_delete_ret w;
             e2 = (if exists then
                     modem_key_mgmt_delete TLS_SEC_TAG MODEM_KEY_MGMT_CRED_TYPE_CA_CHAIN del #
                     (if del \<noteq> 0 then
                        [LOG LOG_ERR ''Failed to delete existing certificate, err %d'' [del]]
                      else [])
                   else []);
             wr = modem_key_mgmt_write_ret w;
             e3 = [LOG LOG_DBG ''Provisioning certificate'' [],
                   modem_key_mgmt_write TLS_SEC_TAG MODEM_KEY_MGMT_CRED_TYPE_CA_CHAIN
                     (cert w) (sizeof_cert_minus_1 w) wr]
         in
         if wr \<noteq> 0 then
           (wr, e1 @ e2 @ e3 @ [LOG LOG_ERR ''Failed to provision certificate, err %d'' [wr]])
         else (0, e1 @ e2 @ e3)))"

text \<open>
  One pass through the body of the connect loop, for loop counter \<open>i\<close>.  \<open>None\<close> is the
  \<^verbatim>\<open>continue\<close> of the timeout branch; \<open>Some r\<close> is a \<^verbatim>\<open>return r\<close>.  The event
  handler \<open>lte_handler\<close> runs in the context of the LTE library; what this thread sees of
  it is the value the wait on \<open>lte_connected\<close> returns: zero when the handler gave the
  semaphore, \<open>-EAGAIN\<close> when the timeout passed first.
\<close>

definition attach_attempt :: "env \<Rightarrow> nat \<Rightarrow> int option \<times> event list" where
  "attach_attempt w i =
     (let r1 = lte_lc_init_ret w i;
          e1 = [LOG LOG_DBG ''Initialize LTE'' [], lte_lc_init r1]
      in
      if r1 \<noteq> 0 then
        (Some r1, e1 @ [LOG LOG_ERR ''Failed to initializes the modem, err %d'' [r1]])
      else
        (let r2 = lte_lc_connect_async_ret w i;
             e2 = e1 @
               [LOG LOG_DBG ''Initialize LTE OK'' [],
                lte_lc_modem_events_enable,
                LOG LOG_INF ''[%d] Trying to attach to LTE network (TIMEOUT: %d ms)''
                  [int i, REGISTER_TIMEOUT_MS],
                UartBrokerPrint (''Trying to attach to LTE network (TIMEOUT: %d ms)'' @ CRLF)
                  [REGISTER_TIMEOUT_MS],
                lte_lc_connect_async r2]
         in
         if r2 \<noteq> 0 then
           (Some r2, e2 @ [LOG LOG_ERR ''Failed to attatch to the LTE network, err %d'' [r2]])
         else
           (let r3 = k_sem_take_ret w i;
                e3 = e2 @ [k_sem_take lte_connected REGISTER_TIMEOUT_MS r3]
            in
            if r3 = - EAGAIN then
              (None, e3 @ [UartBrokerPrint (''TIMEOUT'' @ CRLF) [], lte_lc_offline, lte_lc_deinit])
            else if r3 = 0 then
              (let r4 = lte_lc_psm_req_ret w in
               (Some 0,
                e3 @ [lte_lc_psm_req True r4,
                      if r4 \<noteq> 0 then LOG LOG_ERR ''PSM request failed, error: %d'' [r4]
                      else LOG LOG_DBG ''PSM is enabled'' []]))
            else (Some r3, e3))))"

function connect_loop :: "env \<Rightarrow> nat \<Rightarrow> int \<times> event list" where
  "connect_loop w i =
     (if i < REGISTER_TRY then
        (case fst (attach_attempt w i) of
           None \<Rightarrow> emit (snd (attach_attempt w i)) (connect_loop w (i + 1))
         | Some r \<Rightarrow> (r, snd (attach_attempt w i)))
      else (- 1, [LOG LOG_ERR ''Faild to attach to LTE Network'' []]))"
  by pat_completeness auto
termination
  by (relation "measure (\<lambda>(w, i). REGISTER_TRY - i)") auto

declare connect_loop.simps [simp del]

definition init_modem_and_lte :: "env \<Rightarrow> int \<times> event list" where
  "init_modem_and_lte w =
     (let r0 = nrf_modem_lib_init_ret w;
          e0 = [nrf_modem_lib_init NORMAL_MODE r0]
      in
      if r0 \<noteq> 0 then (r0, e0 @ [LOG LOG_ERR ''Failed to initialize modem library!'' []])
      else
        (let r1 = fst (cert_provision w);
             e1 = snd (cert_provision w)
         in
         if r1 \<noteq> 0 then (r1, e0 @ e1 @ [LOG LOG_ERR ''Faild to cert_provision(): %d'' [r1]])
         else
           (let r2 = fst (pdn_ctx_create_ret w);
                cid = snd (pdn_ctx_create_ret w);
                e2 = e0 @ e1 @ [pdn_ctx_create r2 cid]
            in
            if r2 \<noteq> 0 then (r2, e2 @ [LOG LOG_ERR ''Failed to pdn_ctx_create(), err %d'' [r2]])
            else
              (let r3 = pdn_ctx_configure_ret w;
                   e3 = e2 @ [pdn_ctx_configure cid ''sakura'' PDN_FAM_IPV4 r3]
               in
               if r3 \<noteq> 0 then
                 (r3, e3 @ [LOG LOG_ERR ''Failed to pdn_ctx_configure(), err %d'' [r3]])
               else emit (e3 @ [LOG LOG_DBG ''Setting APN OK'' []]) (connect_loop w 0)))))"

section \<open>Console output\<close>

text \<open>
  Modelled from the spec: \<^verbatim>\<open>UartBrokerPrint\<close> and \<^verbatim>\<open>UartBrokerPuts\<close> live in
  \<^verbatim>\<open>uart_broker.c\<close>, which is not among the sources; the spec names them as the console's
  \<open>print\<close> and \<open>puts\<close>.  \<open>puts\<close> writes its string as it is; \<open>print\<close> formats like C's
  \<^verbatim>\<open>printf\<close>.  The two conversions the program uses are \<^verbatim>\<open>%d\<close> and \<^verbatim>\<open>%02x\<close>: the latter
  writes an \<^verbatim>\<open>unsigned int\<close> in lowercase hexadecimal, padded with zeros to at least two
  digits.
\<close>

definition hex_digit :: "nat \<Rightarrow> char" where
  "hex_digit d = ''0123456789abcdef'' ! d"

function hex_digits :: "nat \<Rightarrow> string" where
  "hex_digits n = (if n < 16 then [hex_digit n] else hex_digits (n div 16) @ [hex_digit (n mod 16)])"
  by pat_completeness auto
termination
  by (relation "measure (\<lambda>n. n)") auto

declare hex_digits.simps [simp del]

function dec_digits :: "nat \<Rightarrow> string" where
  "dec_digits n = (if n < 10 then [hex_digit n] else dec_digits (n div 10) @ [hex_digit (n mod 10)])"
  by pat_completeness auto
termination
  by (relation "measure (\<lambda>n. n)") auto

declare dec_digits.simps [simp del]

definition printf_02x :: "int \<Rightarrow> string" where
  "printf_02x a =
     (let s = hex_digits (nat (a mod 2 ^ 32)) in replicate (2 - length s) (CHR ''0'') @ s)"

definition printf_d :: "int \<Rightarrow> string" where
  "printf_d a = (if a < 0 then CHR ''-'' # dec_digits (nat (- a)) else dec_digits (nat a))"

function vsprintf :: "string \<Rightarrow> int list \<Rightarrow> string" where
  "vsprintf [] args = []"
| "vsprintf (c # fmt) args =
     (if c = CHR ''%'' \<and> take 3 fmt = ''02x'' \<and> args \<noteq> [] then
        printf_02x (hd args) @ vsprintf (drop 3 fmt) (tl args)
      else if c = CHR ''%'' \<and> take 1 fmt = ''d'' \<and> args \<noteq> [] then
        printf_d (hd args) @ vsprintf (drop 1 fmt) (tl args)
      else c # vsprintf fmt args)"
  by pat_completeness auto
termination
  by (relation "measure (\<lambda>(fmt, args). length fmt)") auto

declare vsprintf.simps [simp del]

text \<open>The characters one call puts on the console, and those of a whole trace.\<close>

definition console_of :: "event \<Rightarrow> string" where
  "console_of e =
     (case e of
        UartBrokerPrint fmt args \<Rightarrow> vsprintf fmt args
      | UartBrokerPuts s \<Rightarrow> s
      | _ \<Rightarrow> [])"

definition console :: "event list \<Rightarrow> string" where
  "console evs = concat (map console_of evs)"

section \<open>The download callback\<close>

text \<open>
  The loop of \<open>cb_fileDownload\<close>, from index \<open>i\<close> on.  \<open>buff\<close> is the memory the pointer
  gives access to and \<open>len\<close> the length argument.  The counter is a C \<^verbatim>\<open>int\<close>: reading past
  the end of \<open>buff\<close>, or incrementing the counter at \<open>INT_MAX\<close>, is undefined behaviour, the
  value \<open>None\<close>.
\<close>

function print_loop :: "byte list \<Rightarrow> nat \<Rightarrow> nat \<Rightarrow> event list option" where
  "print_loop buff len i =
     (if i < len then
        (if length buff \<le> i \<or> int i = INT_MAX then None
         else map_option ((#) (UartBrokerPrint ''%02x'' [uint (buff ! i)]))
                (print_loop buff len (i + 1)))
      else Some [])"
  by pat_completeness auto
termination
  by (relation "measure (\<lambda>(buff, len, i). len - i)") auto

declare print_loop.simps [simp del]

definition cb_fileDownload :: "byte list \<Rightarrow> nat \<Rightarrow> (int \<times> event list) option" where
  "cb_fileDownload buff len =
     (case print_loop buff len 0 of
        None \<Rightarrow> None
      | Some evs \<Rightarrow>
          Some (0, evs @ (if len < sizeof_work_buff then [UartBrokerPuts CRLF] else [])))"

section \<open>The main function\<close>

text \<open>
  \<open>main\<close> never returns: it ends in one of two endless loops, and the authentication loop
  before them has no bound either.  So \<open>main w fuel\<close> is the trace of the execution in which
  every endless loop is cut after \<open>fuel\<close> passes; each finite observation of a boot is a prefix
  of such a trace.  The trace holds the calls \<open>main\<close> and the functions it calls make
  themselves; what the two callbacks print while a library runs them is not part of it.
\<close>

definition config_echo :: "env \<Rightarrow> event list" where
  "config_echo w =
     (case CONFIG_LTE_LOCK_PLMN w of
        Some plmn \<Rightarrow> [UartBrokerPuts (''* PLMN: '' @ plmn @ CRLF)]
      | None \<Rightarrow> []) @
     (if CONFIG_SIPF_AUTH_DISABLE_SSL w then
        [UartBrokerPuts (''* Disable SSL, AUTH endpoint.'' @ CRLF)]
      else []) @
     (if CONFIG_SIPF_CONNECTOR_DISABLE_SSL w then
        [UartBrokerPuts (''* Disable SSL, CONNECTOR endpoint.'' @ CRLF)]
      else [])"

text \<open>
  The two capacity arguments of the call to \<^verbatim>\<open>SipfAuthRequest\<close>, as expressions over the
  declared sizes of the two buffers: \<open>su\<close> is \<^verbatim>\<open>sizeof(user_name)\<close> and \<open>sp\<close> is
  \<^verbatim>\<open>sizeof(password)\<close>.  The source writes \<^verbatim>\<open>sizeof(user_name)\<close> in both places.
\<close>

definition SipfAuthRequest_caps :: "nat \<Rightarrow> nat \<Rightarrow> nat \<times> nat" where
  "SipfAuthRequest_caps su sp = (su, su)"

text \<open>The calls of pass \<open>k\<close> through the body of the authentication loop.\<close>

definition auth_attempt :: "env \<Rightarrow> nat \<Rightarrow> event list" where
  "auth_attempt w k =
     (let err = fst (SipfAuthRequest_ret w k);
          bufs = snd (SipfAuthRequest_ret w k);
          caps = SipfAuthRequest_caps SZ_USER_NAME SZ_PASSWORD
      in
      [UartBrokerPuts (''Set AuthMode to '' @ [CHR 0x60] @ ''SIM Auth'' @ [CHR 0x27] @ ''... '' @ CRLF),
       SipfAuthRequest (fst caps) (snd caps) err (fst bufs) (snd bufs),
       LOG LOG_DBG ''SipfAuthRequest(): %d'' [err]] @
      (if err < 0 then [UartBrokerPuts (''faild(Retry after 10s)'' @ CRLF), k_sleep 10000]
       else [UartBrokerPuts (''OK'' @ CRLF)]))"

text \<open>
  The authentication loop, starting with call number \<open>k\<close>.  \<open>None\<close>: the fuel ran out with the
  loop still retrying.  \<open>Some (u, p)\<close>: the loop was left, with these contents in
  \<open>user_name\<close> and \<open>password\<close>.
\<close>

fun auth_loop :: "env \<Rightarrow> nat \<Rightarrow> nat \<Rightarrow> (string \<times> string) option \<times> event list" where
  "auth_loop w k 0 = (None, [])"
| "auth_loop w k (Suc fuel) =
     (if fst (SipfAuthRequest_ret w k) < 0 then
        emit (auth_attempt w k) (auth_loop w (k + 1) fuel)
      else (Some (snd (SipfAuthRequest_ret w k)), auth_attempt w k))"

record loop_state =
  ms_timeout :: int
  btn_prev :: int

text \<open>
  Pass \<open>k\<close> through the body of the operational loop.  The two clock values are
  \<^verbatim>\<open>int64_t\<close> milliseconds since boot and are kept as unbounded integers.
\<close>

definition loop_body :: "env \<Rightarrow> nat \<Rightarrow> loop_state \<Rightarrow> loop_state \<times> event list" where
  "loop_body w k st =
     (let ms_now = k_uptime_get_ret w (k + 1);
          beat = (ms_timeout st - ms_now < 0);
          st1 = (if beat then st\<lparr>ms_timeout := ms_now + LED_HEARTBEAT_MS\<rparr> else st);
          e1 = k_uptime_get ms_now # (if beat then [gpio_pin_toggle_dt led_state] else []);
          btn_val = gpio_pin_get_dt_ret w k;
          e2 = e1 @ [gpio_pin_get_dt btn_send btn_val]
      in
      if btn_val < 0 then
        (st1, e2 @ [LOG LOG_ERR ''button_read() failed.'' [], k_sleep 10])
      else if btn_prev st1 = 0 \<and> btn_val = 1 then
        (let recv_len = SipfFileDownload_ret w k in
         (st1\<lparr>btn_prev := btn_val\<rparr>,
          e2 @
          [UartBrokerPuts (''File download Button Pushed'' @ CRLF),
           gpio_pin_set_dt led_state 1,
           SipfFileDownload ''sipf_file_sample.txt'' sizeof_work_buff recv_len,
           if recv_len < 0 then UartBrokerPuts (''FAILED'' @ CRLF)
           else UartBrokerPrint (''Received: %d bytes.'' @ CRLF) [recv_len],
           gpio_pin_set_dt led_state 0,
           k_sleep 10]))
      else (st1\<lparr>btn_prev := btn_val\<rparr>, e2 @ [k_sleep 10]))"

fun op_loop :: "env \<Rightarrow> nat \<Rightarrow> loop_state \<Rightarrow> nat \<Rightarrow> loop_state \<times> event list" where
  "op_loop w k st 0 = (st, [])"
| "op_loop w k st (Suc fuel) =
     emit (snd (loop_body w k st)) (op_loop w (k + 1) (fst (loop_body w k st)) fuel)"

fun err_loop :: "nat \<Rightarrow> event list" where
  "err_loop 0 = []"
| "err_loop (Suc fuel) = [gpio_pin_toggle_dt led_boot, k_sleep 100] @ err_loop fuel"

text \<open>
  Where the straight-line part of \<open>main\<close> ends: at the label \<^verbatim>\<open>err\<close>, still inside the
  authentication loop when the fuel ran out, or at the operational loop with its initial
  state.
\<close>

datatype boot_outcome = Terminal_Error | Auth_Retrying | Ready loop_state

definition boot :: "env \<Rightarrow> nat \<Rightarrow> boot_outcome \<times> event list" where
  "boot w fuel =
     (let e0 = [UartBrokerInit, UartBrokerPrint (''*** SIPF SDK Sample for nRFConnect'' @ CRLF) []] @
               config_echo w @ snd (led_init w) @ [gpio_pin_set_dt led_boot 1] @
               snd (button_init w)
      in
      if fst (button_init w) \<noteq> 0 then (Terminal_Error, e0 @ [gpio_pin_set_dt led_boot 0])
      else
        (let e1 = e0 @ snd (init_modem_and_lte w) in
         if fst (init_modem_and_lte w) \<noteq> 0 then (Terminal_Error, e1)
         else
           (case fst (auth_loop w 0 fuel) of
              None \<Rightarrow> (Auth_Retrying, e1 @ snd (auth_loop w 0 fuel))
            | Some (u, p) \<Rightarrow>
                (let err = SipfClientHttpSetAuthInfo_ret w;
                     e2 = e1 @ snd (auth_loop w 0 fuel) @ [SipfClientHttpSetAuthInfo u p err]
                 in
                 if err < 0 then (Terminal_Error, e2)
                 else
                   (let t0 = k_uptime_get_ret w 0 in
                    (Ready \<lparr>ms_timeout = t0 + LED_HEARTBEAT_MS, btn_prev = 0\<rparr>,
                     e2 @ [UartBrokerPuts (''+++ Ready +++'' @ CRLF),
                           gpio_pin_set_dt led_state 1,
                           k_uptime_get t0]))))))"

definition main :: "env \<Rightarrow> nat \<Rightarrow> event list" where
  "main w fuel =
     (case fst (boot w fuel) of
        Terminal_Error \<Rightarrow> snd (boot w fuel) @ err_loop fuel
      | Auth_Retrying \<Rightarrow> snd (boot w fuel)
      | Ready st \<Rightarrow> snd (boot w fuel) @ snd (op_loop w 0 st fuel))"

section \<open>Vocabulary of the properties\<close>

definition is_lte_lc_init :: "event \<Rightarrow> bool" where
  "is_lte_lc_init e = (case e of lte_lc_init _ \<Rightarrow> True | _ \<Rightarrow> False)"

definition is_k_sem_take :: "event \<Rightarrow> bool" where
  "is_k_sem_take e = (case e of k_sem_take _ _ _ \<Rightarrow> True | _ \<Rightarrow> False)"

definition attach_event :: "event \<Rightarrow> bool" where
  "attach_event e \<longleftrightarrow> is_lte_lc_init e \<or> is_k_sem_take e"

text \<open>
  The convention of the Zephyr and modem libraries: an \<^verbatim>\<open>int\<close> status is zero on success and
  a negated errno value on failure.  The source only tests for zero, so the sign of what
  \<open>init_modem_and_lte\<close> hands back on failure is the sign of what a library handed to it.
\<close>

definition errno_convention :: "env \<Rightarrow> bool" where
  "errno_convention w \<longleftrightarrow>
     nrf_modem_lib_init_ret w \<le> 0 \<and> fst (modem_key_mgmt_exists_ret w) \<le> 0 \<and>
     modem_key_mgmt_write_ret w \<le> 0 \<and> fst (pdn_ctx_create_ret w) \<le> 0 \<and>
     pdn_ctx_configure_ret w \<le> 0 \<and>
     (\<forall>i. lte_lc_init_ret w i \<le> 0 \<and> lte_lc_connect_async_ret w i \<le> 0 \<and>
          k_sem_take_ret w i \<le> 0)"


subsection \<open>Concrete environments\<close>

text \<open>
  A boot in which every device is ready, the key store already holds an entry, the first
  attach attempt times out and the second registers, authentication fails twice before it
  succeeds, and the button is pressed during the second pass of the operational loop.
\<close>

definition env_ok :: env where
  "env_ok = \<lparr>
     cert = [0x2D, 0x2D, 0x0A, 0x00],
     CONFIG_LTE_LOCK_PLMN = None,
     CONFIG_SIPF_AUTH_DISABLE_SSL = False,
     CONFIG_SIPF_CONNECTOR_DISABLE_SSL = False,
     device_is_ready_ret = (\<lambda>d. True),
     nrf_modem_lib_init_ret = 0,
     modem_key_mgmt_exists_ret = (0, True),
     modem_key_mgmt_delete_ret = 0,
     modem_key_mgmt_write_ret = 0,
     pdn_ctx_create_ret = (0, 1),
     pdn_ctx_configure_ret = 0,
     lte_lc_init_ret = (\<lambda>i. 0),
     lte_lc_connect_async_ret = (\<lambda>i. 0),
     k_sem_take_ret = (\<lambda>i. if i = 0 then - EAGAIN else 0),
     lte_lc_psm_req_ret = 0,
     SipfAuthRequest_ret = (\<lambda>k. if k < 2 then (- 1, [], []) else (0, ''u'', ''p'')),
     SipfClientHttpSetAuthInfo_ret = 0,
     k_uptime_get_ret = (\<lambda>n. 10 * int n),
     gpio_pin_get_dt_ret = (\<lambda>k. if k = 1 then 1 else 0),
     SipfFileDownload_ret = (\<lambda>k. 10) \<rparr>"



subsection \<open>Kinds of calls\<close>

text \<open>
  The calls the properties single out: a write to the key store, the three operations of the
  SIPF client.  Everything else is \<open>Other\<close>.
\<close>

datatype kind = Key_Write | Auth_Request | Set_Auth | Download | Other

definition kind_of :: "event \<Rightarrow> kind" where
  "kind_of e =
     (case e of
        modem_key_mgmt_write _ _ _ _ _ \<Rightarrow> Key_Write
      | SipfAuthRequest _ _ _ _ _ \<Rightarrow> Auth_Request
      | SipfClientHttpSetAuthInfo _ _ _ \<Rightarrow> Set_Auth
      | SipfFileDownload _ _ _ \<Rightarrow> Download
      | _ \<Rightarrow> Other)"

definition calls_of :: "kind \<Rightarrow> event list \<Rightarrow> event list" where
  "calls_of k tr = filter (\<lambda>e. kind_of e = k) tr"

subsection \<open>Certificate provisioning\<close>

text \<open>The one call of \<open>modem_key_mgmt_write\<close> that \<open>cert_provision\<close> can make.\<close>

definition cert_write :: "env \<Rightarrow> event" where
  "cert_write w =
     modem_key_mgmt_write TLS_SEC_TAG MODEM_KEY_MGMT_CRED_TYPE_CA_CHAIN (cert w)
       (sizeof_cert_minus_1 w) (modem_key_mgmt_write_ret w)"

text \<open>
  The reading of ``an existing entry is deleted before the write'' on a trace: every call of
  \<open>modem_key_mgmt_write\<close> comes after a call of \<open>modem_key_mgmt_delete\<close> that returned
  zero.  The flag says whether such a delete has been seen.
\<close>

fun deleted_before_write :: "bool \<Rightarrow> event list \<Rightarrow> bool" where
  "deleted_before_write d [] = True"
| "deleted_before_write d (modem_key_mgmt_delete tag ty r # tr) =
     deleted_before_write (d \<or> r = 0) tr"
| "deleted_before_write d (modem_key_mgmt_write tag ty buf len r # tr) =
     (d \<and> deleted_before_write d tr)"
| "deleted_before_write d (e # tr) = deleted_before_write d tr"

text \<open>The boot of \<open>env_ok\<close>, except that the key store refuses the delete (\<open>-EACCES\<close>).\<close>

definition env_delete_fails :: env where
  "env_delete_fails = env_ok\<lparr>modem_key_mgmt_delete_ret := - 13\<rparr>"

subsection \<open>Button edges\<close>

text \<open>
  The rising edges in a sequence of button reads, where \<open>prev\<close> is the level read last: a
  read of 1 that follows a read of 0.  A negative value is a failed read and shows no level.
\<close>

fun rising_edges :: "int \<Rightarrow> int list \<Rightarrow> nat" where
  "rising_edges prev [] = 0"
| "rising_edges prev (v # vs) =
     (if v < 0 then rising_edges prev vs
      else (if prev = 0 \<and> v = 1 then 1 else 0) + rising_edges v vs)"

text \<open>The button is low, then held down.\<close>

definition env_button_held :: env where
  "env_button_held = env_ok\<lparr>gpio_pin_get_dt_ret := (\<lambda>k. if k = 0 then 0 else 1)\<rparr>"

text \<open>The button is low, one read fails (\<open>-EIO\<close>), then the button is down.\<close>

definition env_button_glitch :: env where
  "env_button_glitch =
     env_ok\<lparr>gpio_pin_get_dt_ret := (\<lambda>k. if k = 0 then 0 else if k = 1 then - 5 else 1)\<rparr>"

subsection \<open>Hexadecimal output\<close>

text \<open>A byte as two lowercase hexadecimal digits, the high nibble first.\<close>

definition hex_byte :: "byte \<Rightarrow> string" where
  "hex_byte b = [hex_digit (unat b div 16), hex_digit (unat b mod 16)]"

subsection \<open>A boot with a missing LED\<close>

text \<open>The boot of \<open>env_ok\<close>, except that the device of the boot LED is not ready.\<close>

definition env_led_not_ready :: env where
  "env_led_not_ready = env_ok\<lparr>device_is_ready_ret := (\<lambda>d. d \<noteq> led_boot)\<rparr>"

section \<open>Lists split around one element\<close>

lemma split_mid:
  "xs @ ys = pre @ x # post \<Longrightarrow>
   (\<exists>post'. xs = pre @ x # post' \<and> post = post' @ ys) \<or>
   (\<exists>pre'. pre = xs @ pre' \<and> ys = pre' @ x # post)"
  by (auto simp: append_eq_append_conv2 Cons_eq_append_conv append_eq_Cons_conv)

section \<open>Network bring-up\<close>

subsection \<open>The connect loop, attempt by attempt\<close>

lemma connect_loop_unrolled:
  "connect_loop w 0 =
     (case fst (attach_attempt w 0) of
        Some r \<Rightarrow> (r, snd (attach_attempt w 0))
      | None \<Rightarrow>
          (case fst (attach_attempt w 1) of
             Some r \<Rightarrow> (r, snd (attach_attempt w 0) @ snd (attach_attempt w 1))
           | None \<Rightarrow>
               (case fst (attach_attempt w 2) of
                  Some r \<Rightarrow>
                    (r, snd (attach_attempt w 0) @ snd (attach_attempt w 1) @
                        snd (attach_attempt w 2))
                | None \<Rightarrow>
                    (- 1, snd (attach_attempt w 0) @ snd (attach_attempt w 1) @
                          snd (attach_attempt w 2) @
                          [LOG LOG_ERR ''Faild to attach to LTE Network'' []]))))"
  by (simp add: connect_loop.simps [of w 0] connect_loop.simps [of w "Suc 0"]
      connect_loop.simps [of w "Suc (Suc 0)"] connect_loop.simps [of w "Suc (Suc (Suc 0))"]
      numeral_2_eq_2 REGISTER_TRY_def emit_def split: option.split)










lemma attach_attempt_sign:
  "errno_convention w \<Longrightarrow> fst (attach_attempt w i) = Some r \<Longrightarrow> r \<le> 0"
  by (auto simp: attach_attempt_def Let_def errno_convention_def split: if_splits)

lemma connect_loop_sign:
  "errno_convention w \<Longrightarrow> fst (connect_loop w i) \<le> 0"
proof (induction w i rule: connect_loop.induct)
  case (1 w i)
  show ?case
  proof (cases "i < REGISTER_TRY")
    case False
    then show ?thesis by (simp add: connect_loop.simps [of w i])
  next
    case True
    show ?thesis
    proof (cases "fst (attach_attempt w i)")
      case None
      with 1(1) [OF True None 1(2)] True show ?thesis
        by (simp add: connect_loop.simps [of w i] emit_def)
    next
      case (Some r)
      with True attach_attempt_sign [OF 1(2), of i r] show ?thesis
        by (simp add: connect_loop.simps [of w i])
    qed
  qed
qed

subsection \<open>What precedes the connect loop\<close>

lemma cert_provision_attach_free:
  "filter attach_event (snd (cert_provision w)) = []"
  by (simp add: cert_provision_def Let_def attach_event_def is_lte_lc_init_def is_k_sem_take_def)

text \<open>
  \<open>init_modem_and_lte\<close> either returns early with a non-zero status, before any attach
  attempt, or runs the connect loop after a prefix that holds no attach call.
\<close>

lemma cert_provision_sign:
  "errno_convention w \<Longrightarrow> fst (cert_provision w) \<le> 0"
  by (auto simp: cert_provision_def Let_def errno_convention_def)

lemma init_modem_and_lte_cases:
  obtains (early) r evs where "init_modem_and_lte w = (r, evs)" "r \<noteq> 0"
      "filter attach_event evs = []" "errno_convention w \<Longrightarrow> r \<le> 0"
  | (loop) pre where "init_modem_and_lte w = emit pre (connect_loop w 0)"
      "filter attach_event pre = []"
proof -
  note f = cert_provision_attach_free [of w]
  consider "nrf_modem_lib_init_ret w \<noteq> 0"
    | "nrf_modem_lib_init_ret w = 0" "fst (cert_provision w) \<noteq> 0"
    | "nrf_modem_lib_init_ret w = 0" "fst (cert_provision w) = 0"
      "fst (pdn_ctx_create_ret w) \<noteq> 0"
    | "nrf_modem_lib_init_ret w = 0" "fst (cert_provision w) = 0"
      "fst (pdn_ctx_create_ret w) = 0" "pdn_ctx_configure_ret w \<noteq> 0"
    | "nrf_modem_lib_init_ret w = 0" "fst (cert_provision w) = 0"
      "fst (pdn_ctx_create_ret w) = 0" "pdn_ctx_configure_ret w = 0"
    by blast
  then show thesis
  proof cases
    case 1
    show thesis
      by (rule early [of "nrf_modem_lib_init_ret w" "snd (init_modem_and_lte w)"])
        (use 1 in \<open>simp_all add: init_modem_and_lte_def Let_def attach_event_def
           is_lte_lc_init_def is_k_sem_take_def errno_convention_def\<close>)
  next
    case 2
    show thesis
      by (rule early [of "fst (cert_provision w)" "snd (init_modem_and_lte w)"])
        (use 2 f cert_provision_sign [of w] in \<open>simp_all add: init_modem_and_lte_def Let_def
           attach_event_def is_lte_lc_init_def is_k_sem_take_def\<close>)
  next
    case 3
    show thesis
      by (rule early [of "fst (pdn_ctx_create_ret w)" "snd (init_modem_and_lte w)"])
        (use 3 f in \<open>simp_all add: init_modem_and_lte_def Let_def attach_event_def
           is_lte_lc_init_def is_k_sem_take_def errno_convention_def\<close>)
  next
    case 4
    show thesis
      by (rule early [of "pdn_ctx_configure_ret w" "snd (init_modem_and_lte w)"])
        (use 4 f in \<open>simp_all add: init_modem_and_lte_def Let_def attach_event_def
           is_lte_lc_init_def is_k_sem_take_def errno_convention_def\<close>)
  next
    case 5
    show thesis
      by (rule loop [of "[nrf_modem_lib_init NORMAL_MODE 0] @ snd (cert_provision w) @
            [pdn_ctx_create 0 (snd (pdn_ctx_create_ret w)),
             pdn_ctx_configure (snd (pdn_ctx_create_ret w)) ''sakura'' PDN_FAM_IPV4 0,
             LOG LOG_DBG ''Setting APN OK'' []]"])
        (use 5 f in \<open>simp_all add: init_modem_and_lte_def Let_def attach_event_def
           is_lte_lc_init_def is_k_sem_take_def emit_def\<close>)
  qed
qed


lemma no_sem_attach:
  "filter attach_event evs = [] \<Longrightarrow> k_sem_take s t r \<notin> set evs"
  by (auto simp: filter_empty_conv attach_event_def is_k_sem_take_def)





lemma init_modem_and_lte_sign:
  assumes "errno_convention w"
  shows "fst (init_modem_and_lte w) \<le> 0"
proof (cases w rule: init_modem_and_lte_cases)
  case (early r evs)
  then show ?thesis using assms by simp
next
  case (loop pre)
  then show ?thesis
    using connect_loop_sign [OF assms, of 0] by (simp add: emit_def)
qed





subsection \<open>At most three attach attempts\<close>

text \<open>
  With libraries that keep to their errno convention (zero or a negated errno value) the
  status \<open>init_modem_and_lte\<close> returns is zero or negative, by \<open>init_modem_and_lte_sign\<close>
  above.  The source itself does not see to that: it tests each library status for being
  non-zero and returns it as it came.
\<close>




subsection \<open>Offline and de-init after a timeout\<close>

lemma attach_attempt_timeout:
  "snd (attach_attempt w i) = pre @ k_sem_take lte_connected t (- EAGAIN) # post \<Longrightarrow>
   t = REGISTER_TIMEOUT_MS \<and> fst (attach_attempt w i) = None \<and>
   post = [UartBrokerPrint (''TIMEOUT'' @ CRLF) [], lte_lc_offline, lte_lc_deinit]"
  by (auto simp: attach_attempt_def Let_def EAGAIN_def Cons_eq_append_conv split: if_splits)

lemma connect_loop_timeout:
  "snd (connect_loop w i) = pre @ k_sem_take lte_connected t (- EAGAIN) # post \<Longrightarrow>
   t = REGISTER_TIMEOUT_MS \<and>
   (\<exists>rest. post = [UartBrokerPrint (''TIMEOUT'' @ CRLF) [], lte_lc_offline, lte_lc_deinit] @ rest)"
proof (induction w i arbitrary: pre rule: connect_loop.induct)
  case (1 w i)
  show ?case
  proof (cases "i < REGISTER_TRY")
    case False
    with 1(2) show ?thesis
      by (simp add: connect_loop.simps [of w i] Cons_eq_append_conv)
  next
    case True
    show ?thesis
    proof (cases "fst (attach_attempt w i)")
      case (Some r)
      with True 1(2) have "snd (attach_attempt w i) = pre @ k_sem_take lte_connected t (- EAGAIN) # post"
        by (simp add: connect_loop.simps [of w i])
      from attach_attempt_timeout [OF this] show ?thesis by simp
    next
      case None
      with True 1(2)
      have "snd (attach_attempt w i) @ snd (connect_loop w (i + 1)) =
          pre @ k_sem_take lte_connected t (- EAGAIN) # post"
        by (simp add: connect_loop.simps [of w i] emit_def)
      from split_mid [OF this] show ?thesis
      proof (elim disjE exE conjE)
        fix post'
        assume e: "snd (attach_attempt w i) = pre @ k_sem_take lte_connected t (- EAGAIN) # post'"
          and p: "post = post' @ snd (connect_loop w (i + 1))"
        from attach_attempt_timeout [OF e] p show ?thesis by simp
      next
        fix pre'
        assume "pre = snd (attach_attempt w i) @ pre'"
          and "snd (connect_loop w (i + 1)) = pre' @ k_sem_take lte_connected t (- EAGAIN) # post"
        from 1(1) [OF True None this(2)] show ?thesis .
      qed
    qed
  qed
qed

lemma attach_free_split:
  "filter attach_event xs = [] \<Longrightarrow> xs @ ys = pre @ k_sem_take s t r # post \<Longrightarrow>
   \<exists>pre'. pre = xs @ pre' \<and> ys = pre' @ k_sem_take s t r # post"
  by (drule split_mid) (auto simp: attach_event_def is_k_sem_take_def)

lemma init_modem_and_lte_timeout:
  assumes "snd (init_modem_and_lte w) = pre @ k_sem_take lte_connected t (- EAGAIN) # post"
  shows "t = REGISTER_TIMEOUT_MS \<and>
   (\<exists>rest. post = [UartBrokerPrint (''TIMEOUT'' @ CRLF) [], lte_lc_offline, lte_lc_deinit] @ rest)"
proof (cases w rule: init_modem_and_lte_cases)
  case (early r evs)
  with assms have "k_sem_take lte_connected t (- EAGAIN) \<in> set evs" by simp
  with early(3) show ?thesis by (simp add: no_sem_attach)
next
  case (loop pre0)
  with assms have "pre0 @ snd (connect_loop w 0) = pre @ k_sem_take lte_connected t (- EAGAIN) # post"
    by (simp add: emit_def)
  from attach_free_split [OF loop(2) this] obtain pre'
    where "snd (connect_loop w 0) = pre' @ k_sem_take lte_connected t (- EAGAIN) # post" by blast
  from connect_loop_timeout [OF this] show ?thesis .
qed

text \<open>
  C2.  Wherever the trace of \<open>init_modem_and_lte\<close> holds a wait on the semaphore that
  returned \<open>-EAGAIN\<close> (the wait, of \<open>REGISTER_TIMEOUT_MS = 120000\<close> ms, timed out), the calls
  that follow it are the \<open>TIMEOUT\<close> notice, \<open>lte_lc_offline\<close> and \<open>lte_lc_deinit\<close>, in this
  order; so both stand before any later call of \<open>lte_lc_init\<close>.
\<close>

theorem timeout_offline_deinit_before_next_init:
  assumes "snd (init_modem_and_lte w) = pre @ k_sem_take lte_connected t (- EAGAIN) # post"
  shows "t = REGISTER_TIMEOUT_MS \<and> REGISTER_TIMEOUT_MS = 120000 \<and>
    (\<exists>rest. post = UartBrokerPrint (''TIMEOUT'' @ CRLF) [] # lte_lc_offline # lte_lc_deinit # rest) \<and>
    (\<forall>p1 r p2. post = p1 @ lte_lc_init r # p2 \<longrightarrow>
       (\<exists>a b c. p1 = a @ lte_lc_offline # b @ lte_lc_deinit # c))"
proof -
  from init_modem_and_lte_timeout [OF assms] obtain rest where t: "t = REGISTER_TIMEOUT_MS"
    and p: "post = UartBrokerPrint (''TIMEOUT'' @ CRLF) [] # lte_lc_offline # lte_lc_deinit # rest"
    by auto
  have "\<exists>a b c. p1 = a @ lte_lc_offline # b @ lte_lc_deinit # c"
    if "post = p1 @ lte_lc_init r # p2" for p1 r p2
  proof -
    from that p obtain c
      where "p1 = UartBrokerPrint (''TIMEOUT'' @ CRLF) [] # lte_lc_offline # lte_lc_deinit # c"
      by (auto simp: Cons_eq_append_conv)
    then have "p1 = [UartBrokerPrint (''TIMEOUT'' @ CRLF) []] @ lte_lc_offline # [] @ lte_lc_deinit # c"
      by simp
    then show ?thesis by blast
  qed
  with t p show ?thesis by (simp add: REGISTER_TIMEOUT_MS_def)
qed

theorem timeout_offline_deinit_before_next_init_witness:
  "snd (init_modem_and_lte env_ok) =
     (nrf_modem_lib_init NORMAL_MODE 0 # snd (cert_provision env_ok) @
      [pdn_ctx_create 0 1, pdn_ctx_configure 1 ''sakura'' PDN_FAM_IPV4 0, LOG LOG_DBG ''Setting APN OK'' [],
       LOG LOG_DBG ''Initialize LTE'' [], lte_lc_init 0, LOG LOG_DBG ''Initialize LTE OK'' [],
       lte_lc_modem_events_enable,
       LOG LOG_INF ''[%d] Trying to attach to LTE network (TIMEOUT: %d ms)'' [0, 120000],
       UartBrokerPrint (''Trying to attach to LTE network (TIMEOUT: %d ms)'' @ CRLF) [120000],
       lte_lc_connect_async 0]) @
     k_sem_take lte_connected 120000 (- EAGAIN) #
     (UartBrokerPrint (''TIMEOUT'' @ CRLF) [] # lte_lc_offline # lte_lc_deinit #
      snd (attach_attempt env_ok 1)) \<and>
   (\<exists>rest. UartBrokerPrint (''TIMEOUT'' @ CRLF) [] # lte_lc_offline # lte_lc_deinit #
             snd (attach_attempt env_ok 1) =
           UartBrokerPrint (''TIMEOUT'' @ CRLF) [] # lte_lc_offline # lte_lc_deinit # rest)"
  (is "?h \<and> ?c")
proof -
  have h: ?h
    by (simp add: env_ok_def EAGAIN_def REGISTER_TIMEOUT_MS_def init_modem_and_lte_def
        cert_provision_def Let_def emit_def connect_loop_unrolled attach_attempt_def)
  from timeout_offline_deinit_before_next_init [OF h] have ?c by blast
  with h show ?thesis by blast
qed

section \<open>Which part of the program makes which calls\<close>

lemma calls_of_simps [simp]:
  "calls_of k [] = []"
  "calls_of k (e # tr) = (if kind_of e = k then e # calls_of k tr else calls_of k tr)"
  "calls_of k (tr @ tr') = calls_of k tr @ calls_of k tr'"
  by (simp_all add: calls_of_def)

lemma calls_of_none:
  "kind_of ` set tr \<subseteq> K \<Longrightarrow> k \<notin> K \<Longrightarrow> calls_of k tr = []"
  by (auto simp: calls_of_def filter_empty_conv)

lemma led_init_kinds: "kind_of ` set (snd (led_init w)) \<subseteq> {Other}"
  by (simp add: led_init_def kind_of_def)

lemma button_init_kinds: "kind_of ` set (snd (button_init w)) \<subseteq> {Other}"
  by (simp add: button_init_def kind_of_def)

lemma config_echo_kinds: "kind_of ` set (config_echo w) \<subseteq> {Other}"
  by (auto simp: config_echo_def kind_of_def split: option.split)

lemma attach_attempt_kinds: "kind_of ` set (snd (attach_attempt w i)) \<subseteq> {Other}"
  by (simp add: attach_attempt_def Let_def kind_of_def)

lemma connect_loop_kinds: "kind_of ` set (snd (connect_loop w i)) \<subseteq> {Other}"
proof (induction w i rule: connect_loop.induct)
  case (1 w i)
  show ?case
  proof (cases "i < REGISTER_TRY")
    case False
    then show ?thesis by (simp add: connect_loop.simps [of w i] kind_of_def)
  next
    case True
    show ?thesis
    proof (cases "fst (attach_attempt w i)")
      case None
      with 1 [OF True None] True attach_attempt_kinds [of w i] show ?thesis
        by (simp add: connect_loop.simps [of w i] emit_def image_Un)
    next
      case (Some r)
      with True attach_attempt_kinds [of w i] show ?thesis
        by (simp add: connect_loop.simps [of w i])
    qed
  qed
qed

lemma auth_attempt_kinds: "kind_of ` set (auth_attempt w k) \<subseteq> {Other, Auth_Request}"
  by (auto simp: auth_attempt_def Let_def kind_of_def)

lemma auth_loop_kinds: "kind_of ` set (snd (auth_loop w k fuel)) \<subseteq> {Other, Auth_Request}"
proof (induction fuel arbitrary: k)
  case 0
  show ?case by simp
next
  case (Suc fuel)
  from Suc [of "k + 1"] auth_attempt_kinds [of w k] show ?case
    by (simp add: emit_def image_Un)
qed

lemma loop_body_kinds: "kind_of ` set (snd (loop_body w k st)) \<subseteq> {Other, Download}"
  by (auto simp: loop_body_def Let_def kind_of_def)

lemma op_loop_kinds: "kind_of ` set (snd (op_loop w k st fuel)) \<subseteq> {Other, Download}"
proof (induction fuel arbitrary: k st)
  case 0
  show ?case by simp
next
  case (Suc fuel)
  from Suc [of "k + 1" "fst (loop_body w k st)"] loop_body_kinds [of w k st] show ?case
    by (simp add: emit_def image_Un)
qed

lemma err_loop_kinds: "kind_of ` set (err_loop fuel) \<subseteq> {Other}"
  by (induction fuel) (simp_all add: kind_of_def)

lemmas no_calls =
  calls_of_none [OF led_init_kinds] calls_of_none [OF button_init_kinds]
  calls_of_none [OF config_echo_kinds] calls_of_none [OF connect_loop_kinds]
  calls_of_none [OF auth_loop_kinds] calls_of_none [OF op_loop_kinds]
  calls_of_none [OF err_loop_kinds] calls_of_none [OF auth_attempt_kinds]
  calls_of_none [OF loop_body_kinds]

lemma cert_provision_key_writes:
  "calls_of Key_Write (snd (cert_provision w)) =
     (if fst (modem_key_mgmt_exists_ret w) = 0 then [cert_write w] else [])"
  by (simp add: cert_provision_def Let_def kind_of_def cert_write_def)

lemma cert_provision_others:
  "k \<noteq> Key_Write \<Longrightarrow> k \<noteq> Other \<Longrightarrow> calls_of k (snd (cert_provision w)) = []"
  by (auto simp: cert_provision_def Let_def kind_of_def)

lemma init_modem_and_lte_calls:
  "k \<noteq> Other \<Longrightarrow> calls_of k (snd (init_modem_and_lte w)) =
     (if nrf_modem_lib_init_ret w = 0 then calls_of k (snd (cert_provision w)) else [])"
  by (simp add: init_modem_and_lte_def Let_def emit_def kind_of_def no_calls)

section \<open>Certificate provisioning\<close>

lemma boot_key_writes:
  "calls_of Key_Write (snd (boot w fuel)) =
     (if fst (button_init w) = 0 then calls_of Key_Write (snd (init_modem_and_lte w)) else [])"
  by (simp add: boot_def Let_def no_calls kind_of_def split: prod.split option.split)

lemma main_key_writes:
  "calls_of Key_Write (main w fuel) = calls_of Key_Write (snd (boot w fuel))"
  by (simp add: main_def no_calls split: prod.split boot_outcome.split)

lemma main_key_writes_cases:
  "calls_of Key_Write (main w fuel) = [] \<or> calls_of Key_Write (main w fuel) = [cert_write w]"
  by (simp add: main_key_writes boot_key_writes init_modem_and_lte_calls cert_provision_key_writes)

lemma cert_provision_existing:
  "fst (modem_key_mgmt_exists_ret w) = 0 \<Longrightarrow> snd (modem_key_mgmt_exists_ret w) \<Longrightarrow>
   cert_provision w =
     (modem_key_mgmt_write_ret w,
      [modem_key_mgmt_exists TLS_SEC_TAG MODEM_KEY_MGMT_CRED_TYPE_CA_CHAIN 0 True,
       modem_key_mgmt_delete TLS_SEC_TAG MODEM_KEY_MGMT_CRED_TYPE_CA_CHAIN
         (modem_key_mgmt_delete_ret w)] @
      (if modem_key_mgmt_delete_ret w \<noteq> 0 then
         [LOG LOG_ERR ''Failed to delete existing certificate, err %d''
            [modem_key_mgmt_delete_ret w]]
       else []) @
      [LOG LOG_DBG ''Provisioning certificate'' [], cert_write w] @
      (if modem_key_mgmt_write_ret w \<noteq> 0 then
         [LOG LOG_ERR ''Failed to provision certificate, err %d'' [modem_key_mgmt_write_ret w]]
       else []))"
  by (simp add: cert_provision_def Let_def cert_write_def)

lemma cert_provision_deleted:
  "fst (modem_key_mgmt_exists_ret w) = 0 \<Longrightarrow> snd (modem_key_mgmt_exists_ret w) \<Longrightarrow>
   deleted_before_write False (snd (cert_provision w)) \<longleftrightarrow> modem_key_mgmt_delete_ret w = 0"
  by (simp add: cert_provision_existing cert_write_def)

lemma sizeof_cert:
  "0 < length (cert w) \<Longrightarrow> length (cert w) < 2 ^ 32 \<Longrightarrow>
   sizeof_cert_minus_1 w = length (cert w) - 1 \<and>
   take (sizeof_cert_minus_1 w) (cert w) = butlast (cert w)"
  by (simp add: sizeof_cert_minus_1_def butlast_conv_take mod_if)

text \<open>
  C3 does not hold as stated.  With an entry present under tag 42 and a key store that
  refuses the delete, \<open>cert_provision\<close> logs the failure and goes on to the write, which
  succeeds: the entry was not deleted before the write.
\<close>

theorem cert_provision_write_without_delete:
  "modem_key_mgmt_exists_ret env_delete_fails = (0, True) \<and>
   cert_provision env_delete_fails =
     (0, [modem_key_mgmt_exists 42 MODEM_KEY_MGMT_CRED_TYPE_CA_CHAIN 0 True,
          modem_key_mgmt_delete 42 MODEM_KEY_MGMT_CRED_TYPE_CA_CHAIN (- 13),
          LOG LOG_ERR ''Failed to delete existing certificate, err %d'' [- 13],
          LOG LOG_DBG ''Provisioning certificate'' [],
          modem_key_mgmt_write 42 MODEM_KEY_MGMT_CRED_TYPE_CA_CHAIN [0x2D, 0x2D, 0x0A, 0x00] 3 0]) \<and>
   \<not> deleted_before_write False (snd (cert_provision env_delete_fails))"
  by (simp add: env_delete_fails_def env_ok_def cert_provision_def Let_def TLS_SEC_TAG_def
      sizeof_cert_minus_1_def)

text \<open>
  C3, amended.  In every boot the program calls \<open>modem_key_mgmt_write\<close> at most once, and
  only as \<open>cert_write\<close>: under tag 42, as CA chain, with the embedded array and its size
  less one.  When the key store reports an entry under the tag, \<open>modem_key_mgmt_delete\<close> is
  called before the write; a delete that fails is logged and the write follows all the same,
  so the entry is gone before the write exactly when the delete returned zero.  For an array
  of at least one byte the length passed is \<open>length - 1\<close>: the bytes written are the array
  without its last byte, the terminating null of the embedded text.
\<close>

theorem cert_provision_single_write_after_delete_call:
  "length (calls_of Key_Write (main w fuel)) \<le> 1 \<and>
   set (calls_of Key_Write (main w fuel)) \<subseteq> {cert_write w} \<and>
   TLS_SEC_TAG = 42 \<and>
   (fst (modem_key_mgmt_exists_ret w) = 0 \<and> snd (modem_key_mgmt_exists_ret w) \<longrightarrow>
      snd (cert_provision w) =
        [modem_key_mgmt_exists TLS_SEC_TAG MODEM_KEY_MGMT_CRED_TYPE_CA_CHAIN 0 True,
         modem_key_mgmt_delete TLS_SEC_TAG MODEM_KEY_MGMT_CRED_TYPE_CA_CHAIN
           (modem_key_mgmt_delete_ret w)] @
        (if modem_key_mgmt_delete_ret w \<noteq> 0 then
           [LOG LOG_ERR ''Failed to delete existing certificate, err %d''
              [modem_key_mgmt_delete_ret w]]
         else []) @
        [LOG LOG_DBG ''Provisioning certificate'' [], cert_write w] @
        (if modem_key_mgmt_write_ret w \<noteq> 0 then
           [LOG LOG_ERR ''Failed to provision certificate, err %d'' [modem_key_mgmt_write_ret w]]
         else []) \<and>
      (deleted_before_write False (snd (cert_provision w)) \<longleftrightarrow>
         modem_key_mgmt_delete_ret w = 0)) \<and>
   (0 < length (cert w) \<and> length (cert w) < 2 ^ 32 \<longrightarrow>
      sizeof_cert_minus_1 w = length (cert w) - 1 \<and>
      take (sizeof_cert_minus_1 w) (cert w) = butlast (cert w))"
  (is "?K1 \<and> ?K2 \<and> ?T \<and> (?A \<longrightarrow> ?E1 \<and> ?E2) \<and> (?B \<longrightarrow> ?S)")
proof -
  have k: "?K1" "?K2"
    using main_key_writes_cases [of w fuel] by auto
  have t: ?T
    by (simp add: TLS_SEC_TAG_def)
  have e: "?E1 \<and> ?E2" if ?A
  proof
    from that have a: "fst (modem_key_mgmt_exists_ret w) = 0" "snd (modem_key_mgmt_exists_ret w)"
      by simp_all
    from cert_provision_existing [OF a] show ?E1 by simp
    from cert_provision_deleted [OF a] show ?E2 .
  qed
  have s: ?S if ?B
    using that sizeof_cert [of w] by blast
  from k t e s show ?thesis by blast
qed

theorem cert_provision_single_write_after_delete_call_witness:
  "fst (modem_key_mgmt_exists_ret env_ok) = 0 \<and> snd (modem_key_mgmt_exists_ret env_ok) \<and>
   0 < length (cert env_ok) \<and> length (cert env_ok) < 2 ^ 32 \<and>
   deleted_before_write False (snd (cert_provision env_ok)) \<and>
   sizeof_cert_minus_1 env_ok = 3 \<and>
   take (sizeof_cert_minus_1 env_ok) (cert env_ok) = [0x2D, 0x2D, 0x0A]"
proof -
  have a: "fst (modem_key_mgmt_exists_ret env_ok) = 0 \<and> snd (modem_key_mgmt_exists_ret env_ok)"
    by (simp add: env_ok_def)
  have b: "0 < length (cert env_ok) \<and> length (cert env_ok) < 2 ^ 32"
    by (simp add: env_ok_def)
  have d: "modem_key_mgmt_delete_ret env_ok = 0"
    by (simp add: env_ok_def)
  from cert_provision_single_write_after_delete_call [of env_ok 1] a b
  have "deleted_before_write False (snd (cert_provision env_ok)) \<longleftrightarrow>
      modem_key_mgmt_delete_ret env_ok = 0"
    and l: "sizeof_cert_minus_1 env_ok = length (cert env_ok) - 1"
    and c: "take (sizeof_cert_minus_1 env_ok) (cert env_ok) = butlast (cert env_ok)"
    by blast+
  with d have "deleted_before_write False (snd (cert_provision env_ok))"
    by simp
  moreover have "length (cert env_ok) - 1 = 3" "butlast (cert env_ok) = [0x2D, 0x2D, 0x0A]"
    by (simp_all add: env_ok_def)
  ultimately show ?thesis
    using a b l c by simp
qed

section \<open>Authentication\<close>

subsection \<open>The retry loop\<close>

lemma auth_attempt_retry:
  "fst (SipfAuthRequest_ret w k) < 0 \<Longrightarrow>
   auth_attempt w k =
     [UartBrokerPuts (''Set AuthMode to '' @ [CHR 0x60] @ ''SIM Auth'' @ [CHR 0x27] @ ''... '' @ CRLF),
      SipfAuthRequest SZ_USER_NAME SZ_USER_NAME (fst (SipfAuthRequest_ret w k))
        (fst (snd (SipfAuthRequest_ret w k))) (snd (snd (SipfAuthRequest_ret w k))),
      LOG LOG_DBG ''SipfAuthRequest(): %d'' [fst (SipfAuthRequest_ret w k)],
      UartBrokerPuts (''faild(Retry after 10s)'' @ CRLF),
      k_sleep 10000]"
  by (simp add: auth_attempt_def Let_def SipfAuthRequest_caps_def)

lemma auth_attempt_success:
  "0 \<le> fst (SipfAuthRequest_ret w k) \<Longrightarrow>
   auth_attempt w k =
     [UartBrokerPuts (''Set AuthMode to '' @ [CHR 0x60] @ ''SIM Auth'' @ [CHR 0x27] @ ''... '' @ CRLF),
      SipfAuthRequest SZ_USER_NAME SZ_USER_NAME (fst (SipfAuthRequest_ret w k))
        (fst (snd (SipfAuthRequest_ret w k))) (snd (snd (SipfAuthRequest_ret w k))),
      LOG LOG_DBG ''SipfAuthRequest(): %d'' [fst (SipfAuthRequest_ret w k)],
      UartBrokerPuts (''OK'' @ CRLF)]"
  by (simp add: auth_attempt_def Let_def SipfAuthRequest_caps_def)

lemma upt_shift: "[k..<Suc (k + n)] = k # [Suc k..<Suc (k + n)]"
  by (simp add: upt_conv_Cons del: upt_Suc)

lemma auth_loop_retrying:
  "(\<forall>j<n. fst (SipfAuthRequest_ret w (k + j)) < 0) \<Longrightarrow>
   auth_loop w k n = (None, concat (map (auth_attempt w) [k..<k + n]))"
proof (induction n arbitrary: k)
  case 0
  show ?case by simp
next
  case (Suc n)
  from Suc.prems have neg: "fst (SipfAuthRequest_ret w k) < 0"
    by (metis add.right_neutral zero_less_Suc)
  from Suc.prems have "\<forall>j<n. fst (SipfAuthRequest_ret w (k + 1 + j)) < 0"
    by (metis Suc_less_eq add_Suc_right add_Suc_shift Suc_eq_plus1)
  from Suc.IH [OF this] neg show ?case
    by (simp add: emit_def upt_shift del: upt_Suc)
qed

lemma auth_loop_leaves:
  "(\<forall>j<n. fst (SipfAuthRequest_ret w (k + j)) < 0) \<Longrightarrow>
   0 \<le> fst (SipfAuthRequest_ret w (k + n)) \<Longrightarrow> n < fuel \<Longrightarrow>
   auth_loop w k fuel =
     (Some (snd (SipfAuthRequest_ret w (k + n))),
      concat (map (auth_attempt w) [k..<k + n]) @ auth_attempt w (k + n))"
proof (induction n arbitrary: k fuel)
  case 0
  then obtain f where "fuel = Suc f" by (cases fuel) auto
  with 0 show ?case by simp
next
  case (Suc n)
  then obtain f where f: "fuel = Suc f" "n < f" by (cases fuel) auto
  from Suc.prems have neg: "fst (SipfAuthRequest_ret w k) < 0"
    by (metis add.right_neutral zero_less_Suc)
  from Suc.prems have a: "\<forall>j<n. fst (SipfAuthRequest_ret w (k + 1 + j)) < 0"
    by (metis Suc_less_eq add_Suc_right add_Suc_shift Suc_eq_plus1)
  from Suc.prems have b: "0 \<le> fst (SipfAuthRequest_ret w (k + 1 + n))" by simp
  from Suc.IH [OF a b f(2)] neg f show ?case
    by (simp add: emit_def upt_shift del: upt_Suc)
qed

lemma auth_loop_left:
  "fst (auth_loop w k fuel) = Some up \<Longrightarrow>
   \<exists>m<fuel. 0 \<le> fst (SipfAuthRequest_ret w (k + m)) \<and>
     (\<forall>j<m. fst (SipfAuthRequest_ret w (k + j)) < 0) \<and> up = snd (SipfAuthRequest_ret w (k + m))"
proof (induction fuel arbitrary: k)
  case 0
  then show ?case by simp
next
  case (Suc fuel)
  show ?case
  proof (cases "fst (SipfAuthRequest_ret w k) < 0")
    case False
    with Suc.prems have "0 \<le> fst (SipfAuthRequest_ret w (k + 0)) \<and>
        (\<forall>j<0. fst (SipfAuthRequest_ret w (k + j)) < 0) \<and> up = snd (SipfAuthRequest_ret w (k + 0))"
      by simp
    then show ?thesis by blast
  next
    case True
    with Suc.prems have "fst (auth_loop w (k + 1) fuel) = Some up"
      by (simp add: emit_def)
    from Suc.IH [OF this] obtain m where m: "m < fuel"
      "0 \<le> fst (SipfAuthRequest_ret w (k + 1 + m))"
      "\<forall>j<m. fst (SipfAuthRequest_ret w (k + 1 + j)) < 0"
      "up = snd (SipfAuthRequest_ret w (k + 1 + m))"
      by blast
    have "\<forall>j<Suc m. fst (SipfAuthRequest_ret w (k + j)) < 0"
    proof (intro allI impI)
      fix j assume "j < Suc m"
      show "fst (SipfAuthRequest_ret w (k + j)) < 0"
      proof (cases j)
        case 0
        with True show ?thesis by simp
      next
        case (Suc i)
        with \<open>j < Suc m\<close> m(3) show ?thesis by simp
      qed
    qed
    with m have "Suc m < Suc fuel \<and> 0 \<le> fst (SipfAuthRequest_ret w (k + Suc m)) \<and>
        (\<forall>j<Suc m. fst (SipfAuthRequest_ret w (k + j)) < 0) \<and>
        up = snd (SipfAuthRequest_ret w (k + Suc m))"
      by simp
    then show ?thesis by blast
  qed
qed

lemma auth_attempt_one_request:
  "length (calls_of Auth_Request (auth_attempt w k)) = 1"
  by (simp add: auth_attempt_def Let_def kind_of_def)

lemma auth_attempts_requests:
  "length (calls_of Auth_Request (concat (map (auth_attempt w) ks))) = length ks"
  by (induction ks) (simp_all add: auth_attempt_one_request)

lemma auth_loop_calls_again:
  assumes "\<forall>j<n. fst (SipfAuthRequest_ret w j) < 0"
  shows "length (calls_of Auth_Request (snd (auth_loop w 0 (Suc n)))) = Suc n"
proof (cases "fst (SipfAuthRequest_ret w n) < 0")
  case True
  with assms have "\<forall>j<Suc n. fst (SipfAuthRequest_ret w (0 + j)) < 0"
    by (simp add: less_Suc_eq)
  from auth_loop_retrying [OF this] show ?thesis
    by (simp add: auth_attempts_requests del: upt_Suc auth_loop.simps)
next
  case False
  from assms have "\<forall>j<n. fst (SipfAuthRequest_ret w (0 + j)) < 0" by simp
  from auth_loop_leaves [OF this, of "Suc n"] False show ?thesis
    by (simp add: auth_attempts_requests auth_attempt_one_request del: upt_Suc auth_loop.simps)
qed

text \<open>
  C4.  As long as \<open>SipfAuthRequest\<close> returns a negative status the loop goes on: if the first
  \<open>n\<close> calls fail, then after \<open>n\<close> passes the loop is still running, whatever \<open>n\<close> is, and
  each of these passes has made the call, put the retry notice on the console and slept
  10000 ms, in this order; and the next pass makes call number \<open>n + 1\<close>.  If call \<open>n\<close>
  then returns a non-negative status the loop is left in that pass.  The loop is never left
  otherwise: when it is left, it is in a pass whose call returned a non-negative status.
\<close>

theorem auth_loop_retries_without_bound:
  assumes "\<forall>j<n. fst (SipfAuthRequest_ret w j) < 0"
  shows "auth_loop w 0 n = (None, concat (map (auth_attempt w) [0..<n])) \<and>
    (\<forall>j<n. auth_attempt w j =
       [UartBrokerPuts (''Set AuthMode to '' @ [CHR 0x60] @ ''SIM Auth'' @ [CHR 0x27] @ ''... '' @ CRLF),
        SipfAuthRequest SZ_USER_NAME SZ_USER_NAME (fst (SipfAuthRequest_ret w j))
          (fst (snd (SipfAuthRequest_ret w j))) (snd (snd (SipfAuthRequest_ret w j))),
        LOG LOG_DBG ''SipfAuthRequest(): %d'' [fst (SipfAuthRequest_ret w j)],
        UartBrokerPuts (''faild(Retry after 10s)'' @ CRLF),
        k_sleep 10000]) \<and>
    length (calls_of Auth_Request (snd (auth_loop w 0 (Suc n)))) = Suc n \<and>
    (0 \<le> fst (SipfAuthRequest_ret w n) \<longrightarrow>
       (\<forall>fuel>n. auth_loop w 0 fuel =
          (Some (snd (SipfAuthRequest_ret w n)),
           concat (map (auth_attempt w) [0..<n]) @ auth_attempt w n))) \<and>
    (\<forall>fuel up. fst (auth_loop w 0 fuel) = Some up \<longrightarrow>
       (\<exists>m<fuel. n \<le> m \<and> 0 \<le> fst (SipfAuthRequest_ret w m) \<and>
          up = snd (SipfAuthRequest_ret w m)))"
  (is "?R \<and> ?E \<and> ?C \<and> ?L \<and> ?X")
proof -
  from assms have a: "\<forall>j<n. fst (SipfAuthRequest_ret w (0 + j)) < 0" by simp
  from auth_loop_retrying [OF a] have r: ?R by simp
  from assms have e: ?E by (simp add: auth_attempt_retry)
  have l: ?L
  proof (intro impI allI)
    fix fuel assume "0 \<le> fst (SipfAuthRequest_ret w n)" and "n < fuel"
    with auth_loop_leaves [OF a, of fuel]
    show "auth_loop w 0 fuel =
        (Some (snd (SipfAuthRequest_ret w n)),
         concat (map (auth_attempt w) [0..<n]) @ auth_attempt w n)"
      by simp
  qed
  have x: ?X
  proof (intro impI allI)
    fix fuel up assume "fst (auth_loop w 0 fuel) = Some up"
    from auth_loop_left [OF this] obtain m where m: "m < fuel"
      "0 \<le> fst (SipfAuthRequest_ret w m)" "up = snd (SipfAuthRequest_ret w m)"
      by auto
    from m(2) assms have "n \<le> m" by (meson not_le)
    with m show "\<exists>m<fuel. n \<le> m \<and> 0 \<le> fst (SipfAuthRequest_ret w m) \<and>
        up = snd (SipfAuthRequest_ret w m)"
      by blast
  qed
  from r e auth_loop_calls_again [OF assms] l x show ?thesis by blast
qed

theorem auth_loop_retries_without_bound_witness:
  "fst (SipfAuthRequest_ret env_ok 0) < 0 \<and> fst (SipfAuthRequest_ret env_ok 1) < 0 \<and>
   0 \<le> fst (SipfAuthRequest_ret env_ok 2) \<and>
   auth_loop env_ok 0 2 = (None, auth_attempt env_ok 0 @ auth_attempt env_ok 1) \<and>
   auth_loop env_ok 0 3 =
     (Some (''u'', ''p''), auth_attempt env_ok 0 @ auth_attempt env_ok 1 @ auth_attempt env_ok 2)"
proof -
  have h: "\<forall>j<2. fst (SipfAuthRequest_ret env_ok j) < 0"
    by (simp add: env_ok_def)
  have s: "0 \<le> fst (SipfAuthRequest_ret env_ok 2)" "snd (SipfAuthRequest_ret env_ok 2) = (''u'', ''p'')"
    by (simp_all add: env_ok_def)
  have u: "[0..<2] = [0, 1]"
    by (simp add: upt_rec)
  from auth_loop_retries_without_bound [OF h] s
  have "auth_loop env_ok 0 2 = (None, concat (map (auth_attempt env_ok) [0..<2]))"
    and "auth_loop env_ok 0 3 =
      (Some (''u'', ''p''), concat (map (auth_attempt env_ok) [0..<2]) @ auth_attempt env_ok 2)"
    by simp_all
  with h s show ?thesis by (simp add: u)
qed

subsection \<open>Handing the credentials to the HTTP client\<close>

lemma unique_split:
  "xs @ x # ys = pre @ y # post \<Longrightarrow> kind_of y = k \<Longrightarrow> calls_of k xs = [] \<Longrightarrow>
   calls_of k ys = [] \<Longrightarrow> pre = xs \<and> y = x \<and> post = ys"
  by (auto simp: append_eq_append_conv2 Cons_eq_append_conv append_eq_Cons_conv
      calls_of_def filter_empty_conv)

lemma auth_loop_last:
  assumes "fst (auth_loop w k fuel) = Some (u, p)"
  shows "\<exists>before cu cp err after.
    snd (auth_loop w k fuel) = before @ SipfAuthRequest cu cp err u p # after \<and> 0 \<le> err \<and>
    calls_of Auth_Request after = []"
proof -
  from auth_loop_left [OF assms] obtain m where m: "m < fuel"
    "0 \<le> fst (SipfAuthRequest_ret w (k + m))"
    "\<forall>j<m. fst (SipfAuthRequest_ret w (k + j)) < 0"
    "(u, p) = snd (SipfAuthRequest_ret w (k + m))"
    by blast
  from m(4) have up: "fst (snd (SipfAuthRequest_ret w (k + m))) = u"
    "snd (snd (SipfAuthRequest_ret w (k + m))) = p"
    by (metis fst_conv, metis snd_conv)
  let ?b = "concat (map (auth_attempt w) [k..<k + m]) @
    [UartBrokerPuts (''Set AuthMode to '' @ [CHR 0x60] @ ''SIM Auth'' @ [CHR 0x27] @ ''... '' @ CRLF)]"
  let ?a = "[LOG LOG_DBG ''SipfAuthRequest(): %d'' [fst (SipfAuthRequest_ret w (k + m))],
    UartBrokerPuts (''OK'' @ CRLF)]"
  from auth_loop_leaves [OF m(3) m(2) m(1)] up
  have "snd (auth_loop w k fuel) =
      ?b @ SipfAuthRequest SZ_USER_NAME SZ_USER_NAME (fst (SipfAuthRequest_ret w (k + m))) u p # ?a"
    by (simp add: auth_attempt_success [OF m(2)])
  moreover have "calls_of Auth_Request ?a = []"
    by (simp add: kind_of_def)
  ultimately show ?thesis using m(2) by blast
qed

lemma main_set_auth_shape:
  "calls_of Set_Auth (main w fuel) = [] \<or>
   (\<exists>e1 u p tail.
      main w fuel = (e1 @ snd (auth_loop w 0 fuel)) @
        SipfClientHttpSetAuthInfo u p (SipfClientHttpSetAuthInfo_ret w) # tail \<and>
      fst (auth_loop w 0 fuel) = Some (u, p) \<and>
      calls_of Set_Auth e1 = [] \<and> calls_of Auth_Request e1 = [] \<and> calls_of Set_Auth tail = [])"
proof -
  let ?e1 = "[UartBrokerInit, UartBrokerPrint (''*** SIPF SDK Sample for nRFConnect'' @ CRLF) []] @
     config_echo w @ snd (led_init w) @ [gpio_pin_set_dt led_boot 1] @ snd (button_init w) @
     snd (init_modem_and_lte w)"
  have e1: "calls_of Set_Auth ?e1 = []" "calls_of Auth_Request ?e1 = []"
    by (simp_all add: no_calls kind_of_def init_modem_and_lte_calls cert_provision_others)
  consider "fst (button_init w) \<noteq> 0"
    | "fst (button_init w) = 0" "fst (init_modem_and_lte w) \<noteq> 0"
    | "fst (button_init w) = 0" "fst (init_modem_and_lte w) = 0" "fst (auth_loop w 0 fuel) = None"
    | u p where "fst (button_init w) = 0" "fst (init_modem_and_lte w) = 0"
        "fst (auth_loop w 0 fuel) = Some (u, p)"
    by (cases "fst (auth_loop w 0 fuel)") auto
  then show ?thesis
  proof cases
    case 1
    then show ?thesis
      by (simp add: main_def boot_def Let_def no_calls kind_of_def)
  next
    case 2
    then show ?thesis
      by (simp add: main_def boot_def Let_def no_calls kind_of_def init_modem_and_lte_calls
          cert_provision_others)
  next
    case 3
    then show ?thesis
      by (simp add: main_def boot_def Let_def no_calls kind_of_def init_modem_and_lte_calls
          cert_provision_others)
  next
    case 4
    let ?tail = "if SipfClientHttpSetAuthInfo_ret w < 0 then err_loop fuel
      else [UartBrokerPuts (''+++ Ready +++'' @ CRLF), gpio_pin_set_dt led_state 1,
            k_uptime_get (k_uptime_get_ret w 0)] @
           snd (op_loop w 0 \<lparr>ms_timeout = k_uptime_get_ret w 0 + LED_HEARTBEAT_MS, btn_prev = 0\<rparr> fuel)"
    have "main w fuel = (?e1 @ snd (auth_loop w 0 fuel)) @
        SipfClientHttpSetAuthInfo u p (SipfClientHttpSetAuthInfo_ret w) # ?tail"
      using 4 by (simp add: main_def boot_def Let_def)
    moreover have "calls_of Set_Auth ?tail = []"
      by (simp add: no_calls kind_of_def)
    ultimately show ?thesis using 4(3) e1 by blast
  qed
qed

text \<open>
  C5.  In every execution \<open>SipfClientHttpSetAuthInfo\<close> is called at most once, and where it
  is called, the last call of \<open>SipfAuthRequest\<close> before it returned a non-negative status
  and left in the two buffers exactly the pair that is passed on.
\<close>

theorem set_auth_once_with_authenticated_pair:
  "length (calls_of Set_Auth (main w fuel)) \<le> 1 \<and>
   (\<forall>pre u p r post. main w fuel = pre @ SipfClientHttpSetAuthInfo u p r # post \<longrightarrow>
      (\<exists>before cu cp err after.
         pre = before @ SipfAuthRequest cu cp err u p # after \<and> 0 \<le> err \<and>
         calls_of Auth_Request after = []))"
proof -
  from main_set_auth_shape [of w fuel] show ?thesis
  proof
    assume n: "calls_of Set_Auth (main w fuel) = []"
    have "main w fuel \<noteq> pre @ SipfClientHttpSetAuthInfo u p r # post" for pre u p r post
      using n by (auto simp: kind_of_def)
    with n show ?thesis by simp
  next
    assume "\<exists>e1 u p tail.
      main w fuel = (e1 @ snd (auth_loop w 0 fuel)) @
        SipfClientHttpSetAuthInfo u p (SipfClientHttpSetAuthInfo_ret w) # tail \<and>
      fst (auth_loop w 0 fuel) = Some (u, p) \<and>
      calls_of Set_Auth e1 = [] \<and> calls_of Auth_Request e1 = [] \<and> calls_of Set_Auth tail = []"
    then obtain e1 u p tail where m: "main w fuel = (e1 @ snd (auth_loop w 0 fuel)) @
        SipfClientHttpSetAuthInfo u p (SipfClientHttpSetAuthInfo_ret w) # tail"
      and a: "fst (auth_loop w 0 fuel) = Some (u, p)"
      and e: "calls_of Set_Auth e1 = []" "calls_of Set_Auth tail = []"
      by blast
    have q: "calls_of Set_Auth (e1 @ snd (auth_loop w 0 fuel)) = []"
      using e by (simp add: no_calls)
    from auth_loop_last [OF a] obtain before cu cp err after
      where l: "snd (auth_loop w 0 fuel) = before @ SipfAuthRequest cu cp err u p # after"
        "0 \<le> err" "calls_of Auth_Request after = []"
      by blast
    have one: "length (calls_of Set_Auth (main w fuel)) \<le> 1"
      using q e(2) by (simp add: m kind_of_def del: append_assoc)
    have "\<exists>before cu cp err after.
         pre = before @ SipfAuthRequest cu cp err u' p' # after \<and> 0 \<le> err \<and>
         calls_of Auth_Request after = []"
      if "main w fuel = pre @ SipfClientHttpSetAuthInfo u' p' r # post" for pre u' p' r post
    proof -
      from that m have "(e1 @ snd (auth_loop w 0 fuel)) @
          SipfClientHttpSetAuthInfo u p (SipfClientHttpSetAuthInfo_ret w) # tail =
          pre @ SipfClientHttpSetAuthInfo u' p' r # post"
        by simp
      from unique_split [OF this _ q e(2)] have "pre = e1 @ snd (auth_loop w 0 fuel)"
        and "u' = u" and "p' = p"
        by (simp_all add: kind_of_def)
      with l have "pre = (e1 @ before) @ SipfAuthRequest cu cp err u' p' # after"
        by simp
      with l(2,3) show ?thesis by blast
    qed
    with one show ?thesis by blast
  qed
qed
lemma env_ok_boot_facts:
  "fst (button_init env_ok) = 0"
  "fst (init_modem_and_lte env_ok) = 0"
  "SipfClientHttpSetAuthInfo_ret env_ok = 0"
  "k_uptime_get_ret env_ok 0 = 0"
     apply (simp add: button_init_def env_ok_def)
    apply (simp add: env_ok_def EAGAIN_def init_modem_and_lte_def cert_provision_def Let_def emit_def connect_loop_unrolled attach_attempt_def)
   apply (simp add: env_ok_def)
  apply (simp add: env_ok_def)
  done

lemma env_ok_auth: "fst (auth_loop env_ok 0 3) = Some (''u'', ''p'')"
  by (simp add: env_ok_def numeral_3_eq_3 emit_def)

theorem set_auth_once_with_authenticated_pair_witness:
  "main env_ok 3 =
     ([UartBrokerInit, UartBrokerPrint (''*** SIPF SDK Sample for nRFConnect'' @ CRLF) []] @
      config_echo env_ok @ snd (led_init env_ok) @ [gpio_pin_set_dt led_boot 1] @
      snd (button_init env_ok) @ snd (init_modem_and_lte env_ok) @ snd (auth_loop env_ok 0 3)) @
     SipfClientHttpSetAuthInfo ''u'' ''p'' 0 #
     ([UartBrokerPuts (''+++ Ready +++'' @ CRLF), gpio_pin_set_dt led_state 1, k_uptime_get 0] @
      snd (op_loop env_ok 0 \<lparr>ms_timeout = 500, btn_prev = 0\<rparr> 3)) \<and>
   (\<exists>before cu cp err after.
      [UartBrokerInit, UartBrokerPrint (''*** SIPF SDK Sample for nRFConnect'' @ CRLF) []] @
      config_echo env_ok @ snd (led_init env_ok) @ [gpio_pin_set_dt led_boot 1] @
      snd (button_init env_ok) @ snd (init_modem_and_lte env_ok) @ snd (auth_loop env_ok 0 3) =
      before @ SipfAuthRequest cu cp err ''u'' ''p'' # after \<and>
      0 \<le> err \<and> calls_of Auth_Request after = [])"
  (is "?h \<and> ?c")
proof -
  have h: ?h
    by (simp add: main_def boot_def Let_def env_ok_boot_facts env_ok_auth LED_HEARTBEAT_MS_def)
  from set_auth_once_with_authenticated_pair [of env_ok 3, THEN conjunct2, rule_format, OF h]
  have ?c .
  with h show ?thesis by blast
qed

subsection \<open>The capacities passed to the authentication request\<close>

lemma auth_attempt_request:
  "calls_of Auth_Request (auth_attempt w k) =
     [SipfAuthRequest SZ_USER_NAME SZ_PASSWORD (fst (SipfAuthRequest_ret w k))
        (fst (snd (SipfAuthRequest_ret w k))) (snd (snd (SipfAuthRequest_ret w k)))]"
  by (simp add: auth_attempt_def Let_def SipfAuthRequest_caps_def kind_of_def
      SZ_USER_NAME_def SZ_PASSWORD_def)

lemma auth_loop_requests:
  "\<exists>n. calls_of Auth_Request (snd (auth_loop w k fuel)) =
     map (\<lambda>j. SipfAuthRequest SZ_USER_NAME SZ_PASSWORD (fst (SipfAuthRequest_ret w j))
                (fst (snd (SipfAuthRequest_ret w j))) (snd (snd (SipfAuthRequest_ret w j))))
       [k..<k + n]"
  (is "\<exists>n. ?calls k fuel = map ?req [k..<k + n]")
proof (induction fuel arbitrary: k)
  case 0
  have "?calls k 0 = map ?req [k..<k + 0]" by simp
  then show ?case by blast
next
  case (Suc fuel)
  show ?case
  proof (cases "fst (SipfAuthRequest_ret w k) < 0")
    case False
    then have "?calls k (Suc fuel) = map ?req [k..<k + 1]"
      by (simp add: auth_attempt_request)
    then show ?thesis by blast
  next
    case True
    from Suc [of "k + 1"] obtain n where "?calls (k + 1) fuel = map ?req [k + 1..<k + 1 + n]"
      by blast
    with True have "?calls k (Suc fuel) = map ?req [k..<k + Suc n]"
      by (simp add: emit_def auth_attempt_request upt_shift del: upt_Suc)
    then show ?thesis by blast
  qed
qed

lemma main_requests:
  "calls_of Auth_Request (main w fuel) =
     (if fst (button_init w) = 0 \<and> fst (init_modem_and_lte w) = 0 then
        calls_of Auth_Request (snd (auth_loop w 0 fuel))
      else [])"
  by (simp add: main_def boot_def Let_def no_calls kind_of_def init_modem_and_lte_calls
      cert_provision_others split: option.split)

text \<open>
  C6.  Every call of \<open>SipfAuthRequest\<close> passes 255 as the capacity of \<open>user_name\<close> and 255 as
  the capacity of \<open>password\<close>, the sizes the two buffers are declared with
  (\<open>SZ_USER_NAME\<close> and \<open>SZ_PASSWORD\<close>): this holds of each pass through the authentication
  loop, and the calls of \<open>SipfAuthRequest\<close> in any execution of \<open>main\<close> are those of the
  first passes, in order.  The source writes \<^verbatim>\<open>sizeof(user_name)\<close> for both arguments; the
  second is the size of \<open>password\<close> because the two buffers are declared with the same size.
\<close>

theorem auth_request_passes_buffer_capacities:
  "SZ_USER_NAME = 255 \<and> SZ_PASSWORD = 255 \<and>
   calls_of Auth_Request (auth_attempt w k) =
     [SipfAuthRequest SZ_USER_NAME SZ_PASSWORD (fst (SipfAuthRequest_ret w k))
        (fst (snd (SipfAuthRequest_ret w k))) (snd (snd (SipfAuthRequest_ret w k)))] \<and>
   (\<exists>n. calls_of Auth_Request (main w fuel) =
      map (\<lambda>j. SipfAuthRequest SZ_USER_NAME SZ_PASSWORD (fst (SipfAuthRequest_ret w j))
                 (fst (snd (SipfAuthRequest_ret w j))) (snd (snd (SipfAuthRequest_ret w j))))
        [0..<n])"
proof -
  have "\<exists>n. calls_of Auth_Request (main w fuel) =
      map (\<lambda>j. SipfAuthRequest SZ_USER_NAME SZ_PASSWORD (fst (SipfAuthRequest_ret w j))
                 (fst (snd (SipfAuthRequest_ret w j))) (snd (snd (SipfAuthRequest_ret w j))))
        [0..<n]"
  proof (cases "fst (button_init w) = 0 \<and> fst (init_modem_and_lte w) = 0")
    case True
    with auth_loop_requests [of w 0 fuel] show ?thesis
      by (simp add: main_requests)
  next
    case False
    then have "calls_of Auth_Request (main w fuel) =
        map (\<lambda>j. SipfAuthRequest SZ_USER_NAME SZ_PASSWORD (fst (SipfAuthRequest_ret w j))
                   (fst (snd (SipfAuthRequest_ret w j))) (snd (snd (SipfAuthRequest_ret w j))))
          [0..<0]"
      by (auto simp: main_requests)
    then show ?thesis by blast
  qed
  then show ?thesis
    by (simp add: auth_attempt_request SZ_USER_NAME_def SZ_PASSWORD_def)
qed

section \<open>The operational loop\<close>

lemma loop_body_downloads:
  "calls_of Download (snd (loop_body w k st)) =
     (if btn_prev st = 0 \<and> gpio_pin_get_dt_ret w k = 1 then
        [SipfFileDownload ''sipf_file_sample.txt'' sizeof_work_buff (SipfFileDownload_ret w k)]
      else [])"
  by (simp add: loop_body_def Let_def kind_of_def)

lemma loop_body_btn_prev:
  "btn_prev (fst (loop_body w k st)) =
     (if gpio_pin_get_dt_ret w k < 0 then btn_prev st else gpio_pin_get_dt_ret w k)"
  by (simp add: loop_body_def Let_def)

lemma op_loop_downloads:
  "length (calls_of Download (snd (op_loop w k st fuel))) =
     rising_edges (btn_prev st) (map (gpio_pin_get_dt_ret w) [k..<k + fuel])"
proof (induction fuel arbitrary: k st)
  case 0
  show ?case by simp
next
  case (Suc fuel)
  from Suc [of "k + 1" "fst (loop_body w k st)"] show ?case
    by (simp add: emit_def loop_body_downloads loop_body_btn_prev upt_shift del: upt_Suc)
qed

text \<open>
  C7.  A pass of the operational loop calls \<open>SipfFileDownload\<close> exactly when the stored level
  is 0 and the level read is 1, and then once.  So a button held down (two reads of 1 in a
  row) does not fire again, a read other than 1 never fires, and over any number of passes
  the downloads are as many as the rising edges in the levels read.
\<close>

theorem file_download_once_per_rising_edge:
  "calls_of Download (snd (loop_body w k st)) =
     (if btn_prev st = 0 \<and> gpio_pin_get_dt_ret w k = 1 then
        [SipfFileDownload ''sipf_file_sample.txt'' 1024 (SipfFileDownload_ret w k)]
      else []) \<and>
   (gpio_pin_get_dt_ret w k = 1 \<and> gpio_pin_get_dt_ret w (k + 1) = 1 \<longrightarrow>
      calls_of Download (snd (loop_body w (k + 1) (fst (loop_body w k st)))) = []) \<and>
   (gpio_pin_get_dt_ret w k \<noteq> 1 \<longrightarrow> calls_of Download (snd (loop_body w k st)) = []) \<and>
   length (calls_of Download (snd (op_loop w k st fuel))) =
     rising_edges (btn_prev st) (map (gpio_pin_get_dt_ret w) [k..<k + fuel])"
  by (simp add: loop_body_downloads loop_body_btn_prev op_loop_downloads sizeof_work_buff_def)

theorem file_download_once_per_rising_edge_witness:
  "gpio_pin_get_dt_ret env_button_held 1 = 1 \<and> gpio_pin_get_dt_ret env_button_held 2 = 1 \<and>
   calls_of Download (snd (loop_body env_button_held 1 \<lparr>ms_timeout = 500, btn_prev = 0\<rparr>)) =
     [SipfFileDownload ''sipf_file_sample.txt'' 1024 10] \<and>
   calls_of Download (snd (loop_body env_button_held 2
     (fst (loop_body env_button_held 1 \<lparr>ms_timeout = 500, btn_prev = 0\<rparr>)))) = [] \<and>
   length (calls_of Download (snd (op_loop env_button_held 0 \<lparr>ms_timeout = 500, btn_prev = 0\<rparr> 4))) = 1"
proof -
  have r: "gpio_pin_get_dt_ret env_button_held 1 = 1" "gpio_pin_get_dt_ret env_button_held 2 = 1"
    "SipfFileDownload_ret env_button_held 1 = 10"
    by (simp_all add: env_button_held_def env_ok_def)
  have e: "rising_edges 0 (map (gpio_pin_get_dt_ret env_button_held) [0..<0 + 4]) = 1"
    by (simp add: env_button_held_def env_ok_def upt_rec)
  from file_download_once_per_rising_edge
    [of env_button_held 1 "\<lparr>ms_timeout = 500, btn_prev = 0\<rparr>" 0] r
  have "calls_of Download (snd (loop_body env_button_held 1 \<lparr>ms_timeout = 500, btn_prev = 0\<rparr>)) =
     [SipfFileDownload ''sipf_file_sample.txt'' 1024 10]"
    and "calls_of Download (snd (loop_body env_button_held 2
     (fst (loop_body env_button_held 1 \<lparr>ms_timeout = 500, btn_prev = 0\<rparr>)))) = []"
    by (simp_all add: numeral_2_eq_2)
  moreover from file_download_once_per_rising_edge
    [of env_button_held 0 "\<lparr>ms_timeout = 500, btn_prev = 0\<rparr>" 4] e
  have "length (calls_of Download (snd (op_loop env_button_held 0 \<lparr>ms_timeout = 500, btn_prev = 0\<rparr> 4))) = 1"
    by simp
  ultimately show ?thesis using r by simp
qed

text \<open>
  C10.  A pass in which the button read fails (a negative value) logs the failure, leaves
  \<open>btn_prev\<close> as it was and calls no download; the pass after it compares its read with the
  level stored before the failure.
\<close>

theorem failed_button_read_keeps_btn_prev:
  assumes "gpio_pin_get_dt_ret w k < 0"
  shows "btn_prev (fst (loop_body w k st)) = btn_prev st \<and>
    calls_of Download (snd (loop_body w k st)) = [] \<and>
    LOG LOG_ERR ''button_read() failed.'' [] \<in> set (snd (loop_body w k st)) \<and>
    calls_of Download (snd (loop_body w (k + 1) (fst (loop_body w k st)))) =
      (if btn_prev st = 0 \<and> gpio_pin_get_dt_ret w (k + 1) = 1 then
         [SipfFileDownload ''sipf_file_sample.txt'' 1024 (SipfFileDownload_ret w (k + 1))]
       else [])"
proof -
  from assms have "LOG LOG_ERR ''button_read() failed.'' [] \<in> set (snd (loop_body w k st))"
    by (simp add: loop_body_def Let_def)
  with assms show ?thesis
    by (simp add: loop_body_downloads loop_body_btn_prev sizeof_work_buff_def)
qed

theorem failed_button_read_keeps_btn_prev_witness:
  "gpio_pin_get_dt_ret env_button_glitch 1 < 0 \<and>
   btn_prev (fst (loop_body env_button_glitch 1 \<lparr>ms_timeout = 500, btn_prev = 0\<rparr>)) = 0 \<and>
   calls_of Download (snd (loop_body env_button_glitch 1 \<lparr>ms_timeout = 500, btn_prev = 0\<rparr>)) = [] \<and>
   calls_of Download (snd (loop_body env_button_glitch 2
     (fst (loop_body env_button_glitch 1 \<lparr>ms_timeout = 500, btn_prev = 0\<rparr>)))) =
     [SipfFileDownload ''sipf_file_sample.txt'' 1024 10]"
proof -
  have r: "gpio_pin_get_dt_ret env_button_glitch 1 < 0" "gpio_pin_get_dt_ret env_button_glitch 2 = 1"
    "SipfFileDownload_ret env_button_glitch 2 = 10"
    by (simp_all add: env_button_glitch_def env_ok_def)
  from failed_button_read_keeps_btn_prev [OF r(1), of "\<lparr>ms_timeout = 500, btn_prev = 0\<rparr>"] r
  show ?thesis by (simp add: numeral_2_eq_2)
qed

section \<open>The download callback\<close>

lemma print_loop_defined:
  "len \<le> length buff \<Longrightarrow> int len \<le> INT_MAX \<Longrightarrow> i \<le> len \<Longrightarrow>
   print_loop buff len i =
     Some (map (\<lambda>b. UartBrokerPrint ''%02x'' [uint b]) (drop i (take len buff)))"
proof (induction buff len i rule: print_loop.induct)
  case (1 buff len i)
  show ?case
  proof (cases "i < len")
    case False
    with 1(4) have "i = len" by simp
    then show ?thesis by (simp add: print_loop.simps [of buff len len])
  next
    case True
    with 1(2,3) have ok: "\<not> (length buff \<le> i \<or> int i = INT_MAX)" by auto
    have "i < length (take len buff)"
      using True 1(2) by simp
    from Cons_nth_drop_Suc [OF this] True
    have d: "drop i (take len buff) = buff ! i # drop (i + 1) (take len buff)"
      by simp
    from 1(1) [OF True ok 1(2,3)] True ok show ?thesis
      by (simp add: print_loop.simps [of buff len i] d)
  qed
qed

lemma hex_digits_byte:
  "n < 256 \<Longrightarrow>
   hex_digits n = (if n < 16 then [hex_digit n] else [hex_digit (n div 16), hex_digit (n mod 16)])"
proof (cases "n < 16")
  case True
  then show ?thesis by (subst hex_digits.simps) simp
next
  case False
  assume "n < 256"
  then have "n div 16 < 16" by simp
  then have "hex_digits (n div 16) = [hex_digit (n div 16)]"
    by (subst hex_digits.simps) simp
  with False show ?thesis by (subst hex_digits.simps) simp
qed

lemma printf_02x_byte: "printf_02x (uint (b :: byte)) = hex_byte b"
proof -
  have n: "unat b < 256"
    using unsigned_less [of b, where ?'a = nat] by simp
  have "uint b mod 2 ^ 32 = uint b"
    using uint_bounded [of b] by (simp add: mod_pos_pos_trivial)
  then have m: "nat (uint b mod 2 ^ 32) = unat b"
    by simp
  have z: "hex_digit 0 = CHR ''0''"
    by (simp add: hex_digit_def)
  show ?thesis
    unfolding printf_02x_def m Let_def
    using n by (simp add: hex_digits_byte hex_byte_def z)
qed

lemma vsprintf_02x: "vsprintf ''%02x'' [a] = printf_02x a"
  by (simp add: vsprintf.simps)

lemma console_hex:
  "console (map (\<lambda>b. UartBrokerPrint ''%02x'' [uint b]) (bs :: byte list)) =
     concat (map hex_byte bs)"
  by (induction bs) (simp_all add: console_def console_of_def vsprintf_02x printf_02x_byte)

lemma hex_digit_lower: "d < 16 \<Longrightarrow> hex_digit d \<in> set ''0123456789abcdef''"
  unfolding hex_digit_def by (rule nth_mem) simp

lemma hex_byte_chars: "set (hex_byte b) \<subseteq> set ''0123456789abcdef''"
proof -
  have "unat b div 16 < 16"
    using unsigned_less [of b, where ?'a = nat] by simp
  then show ?thesis
    using hex_digit_lower [of "unat b div 16"] hex_digit_lower [of "unat b mod 16"]
    by (simp add: hex_byte_def)
qed

lemma hex_bytes_length: "length (concat (map hex_byte bs)) = 2 * length bs"
  by (induction bs) (simp_all add: hex_byte_def)

lemma hex_bytes_chars: "set (concat (map hex_byte bs)) \<subseteq> set ''0123456789abcdef''"
  using hex_byte_chars by (induction bs) auto

text \<open>
  C8.  For a chunk of \<open>len\<close> bytes (that lie inside the buffer passed, with \<open>len\<close> in the
  range of the \<^verbatim>\<open>int\<close> counter) the callback returns 0 after printing each byte with
  \<^verbatim>\<open>%02x\<close>, in order: on the console that is two lowercase hexadecimal digits per byte,
  \<open>2 * len\<close> characters.  A CR-LF follows exactly when \<open>len < 1024\<close>, the size of
  \<open>work_buff\<close>.
\<close>

theorem cb_fileDownload_prints_hex:
  assumes "len \<le> length buff" and "int len \<le> INT_MAX"
  shows "\<exists>evs. cb_fileDownload buff len = Some (0, evs) \<and>
    evs = map (\<lambda>b. UartBrokerPrint ''%02x'' [uint b]) (take len buff) @
          (if len < 1024 then [UartBrokerPuts CRLF] else []) \<and>
    console evs = concat (map hex_byte (take len buff)) @ (if len < 1024 then CRLF else []) \<and>
    length (concat (map hex_byte (take len buff))) = 2 * len \<and>
    set (concat (map hex_byte (take len buff))) \<subseteq> set ''0123456789abcdef''"
proof -
  let ?p = "map (\<lambda>b. UartBrokerPrint ''%02x'' [uint b]) (take len buff)"
  let ?evs = "?p @ (if len < 1024 then [UartBrokerPuts CRLF] else [])"
  from print_loop_defined [OF assms, of 0]
  have c: "cb_fileDownload buff len = Some (0, ?evs)"
    by (simp add: cb_fileDownload_def sizeof_work_buff_def)
  have "console ?evs = console ?p @ (if len < 1024 then CRLF else [])"
    by (simp add: console_def console_of_def)
  then have o: "console ?evs =
      concat (map hex_byte (take len buff)) @ (if len < 1024 then CRLF else [])"
    by (simp only: console_hex)
  have l: "length (concat (map hex_byte (take len buff))) = 2 * len"
    using assms(1) by (simp add: hex_bytes_length)
  from c o l hex_bytes_chars [of "take len buff"] show ?thesis by blast
qed

theorem cb_fileDownload_prints_hex_witness:
  "(3 :: nat) \<le> length [0x01, 0xAB, 0xFF :: byte] \<and> int 3 \<le> INT_MAX \<and>
   (\<exists>evs. cb_fileDownload [0x01, 0xAB, 0xFF] 3 = Some (0, evs) \<and>
      console evs = ''01abff'' @ CRLF)"
proof -
  have h: "(3 :: nat) \<le> length [0x01, 0xAB, 0xFF :: byte]" "int 3 \<le> INT_MAX"
    by (simp_all add: INT_MAX_def)
  have x: "concat (map hex_byte (take 3 [0x01, 0xAB, 0xFF])) = ''01abff''"
    by (simp add: hex_byte_def hex_digit_def)
  from cb_fileDownload_prints_hex [OF h] obtain evs
    where "cb_fileDownload [0x01, 0xAB, 0xFF] 3 = Some (0, evs)"
      and "console evs = concat (map hex_byte (take 3 [0x01, 0xAB, 0xFF])) @
        (if (3 :: nat) < 1024 then CRLF else [])"
    by blast
  with x have "cb_fileDownload [0x01, 0xAB, 0xFF] 3 = Some (0, evs) \<and> console evs = ''01abff'' @ CRLF"
    by simp
  with h show ?thesis by blast
qed

section \<open>Peripheral initialisation\<close>

lemma env_led_boot_facts:
  "fst (button_init env_led_not_ready) = 0"
  "fst (init_modem_and_lte env_led_not_ready) = 0"
  "SipfClientHttpSetAuthInfo_ret env_led_not_ready = 0"
  "k_uptime_get_ret env_led_not_ready 0 = 0"
  "fst (auth_loop env_led_not_ready 0 3) = Some (''u'', ''p'')"
      apply (simp add: button_init_def env_led_not_ready_def env_ok_def)
     apply (simp add: env_led_not_ready_def env_ok_def EAGAIN_def init_modem_and_lte_def cert_provision_def Let_def emit_def connect_loop_unrolled attach_attempt_def)
    apply (simp add: env_led_not_ready_def env_ok_def)
   apply (simp add: env_led_not_ready_def env_ok_def)
  apply (simp add: env_led_not_ready_def env_ok_def numeral_3_eq_3 emit_def)
  done

text \<open>
  C9.  \<open>led_init\<close> reports a LED whose device is not ready (\<open>-ENODEV\<close>), but \<open>main\<close> drops
  the value it returns.  With the boot LED not ready and everything else in order the boot
  goes on through bring-up and authentication into the operational loop; it does not reach
  the error indicator.
\<close>

theorem boot_goes_on_without_boot_led:
  "\<not> device_is_ready_ret env_led_not_ready led_boot \<and>
   led_init env_led_not_ready = (- ENODEV, [device_is_ready led_boot False]) \<and>
   fst (boot env_led_not_ready 3) = Ready \<lparr>ms_timeout = 500, btn_prev = 0\<rparr> \<and>
   fst (boot env_led_not_ready 3) \<noteq> Terminal_Error"
  by (simp add: boot_def Let_def env_led_boot_facts LED_HEARTBEAT_MS_def led_init_def)
    (simp add: env_led_not_ready_def)

text \<open>
  What does hold: a button that is not ready ends the boot at the error indicator, and with
  all three devices ready both LEDs are configured inactive and the button as an input.
\<close>

lemma boot_button_not_ready:
  "\<not> device_is_ready_ret w btn_send \<Longrightarrow> fst (boot w fuel) = Terminal_Error"
  by (simp add: boot_def Let_def button_init_def ENODEV_def)

lemma peripherals_ready:
  "device_is_ready_ret w led_boot \<Longrightarrow> device_is_ready_ret w led_state \<Longrightarrow>
   device_is_ready_ret w btn_send \<Longrightarrow>
   led_init w = (0, [device_is_ready led_boot True,
                     gpio_pin_configure_dt led_boot GPIO_OUTPUT_INACTIVE,
                     device_is_ready led_state True,
                     gpio_pin_configure_dt led_state GPIO_OUTPUT_INACTIVE]) \<and>
   button_init w = (0, [device_is_ready btn_send True, gpio_pin_configure_dt btn_send GPIO_INPUT])"
  by (simp add: led_init_def button_init_def)


end
